theory Spec2Isabelle
  imports Complex_Main
begin

section \<open>Values and strings of the Python runtime\<close>

text \<open>
  A Python \<open>float\<close> is a rational number or one of the three special values infinity,
  minus infinity and NaN. The sign of zero is not modelled. Arithmetic on floats is defined
  further down, relative to a rounding: the exact one, which rounds nothing, or that of
  binary64.
\<close>

datatype pyfloat = Fin rat | PInf | NInf | NaN

text \<open>\<open>a <= b\<close> on floats: every comparison with NaN is false.\<close>

fun pf_le :: "pyfloat \<Rightarrow> pyfloat \<Rightarrow> bool" where
  "pf_le NaN b = False"
| "pf_le a NaN = False"
| "pf_le NInf b = True"
| "pf_le a PInf = True"
| "pf_le (Fin x) (Fin y) = (x \<le> y)"
| "pf_le a b = False"

text \<open>\<open>a >= b\<close> on floats.\<close>

definition pf_ge :: "pyfloat \<Rightarrow> pyfloat \<Rightarrow> bool" where
  "pf_ge a b = pf_le b a"

text \<open>\<open>a < b\<close> on floats.\<close>

fun pf_lt :: "pyfloat \<Rightarrow> pyfloat \<Rightarrow> bool" where
  "pf_lt NaN b = False"
| "pf_lt a NaN = False"
| "pf_lt (Fin x) (Fin y) = (x < y)"
| "pf_lt NInf NInf = False"
| "pf_lt PInf b = False"
| "pf_lt NInf b = True"
| "pf_lt (Fin x) PInf = True"
| "pf_lt (Fin x) NInf = False"

text \<open>
  Strings are ASCII. \<open>str.upper\<close> maps \<open>a..z\<close> to \<open>A..Z\<close>; \<open>str.strip\<close> removes the
  characters for which \<open>str.isspace\<close> holds (codes 9 to 13, 28 to 31 and 32) from both ends.
\<close>

definition upper_char :: "char \<Rightarrow> char" where
  "upper_char c =
     (case map_of (zip ''abcdefghijklmnopqrstuvwxyz'' ''ABCDEFGHIJKLMNOPQRSTUVWXYZ'') c of
        Some u \<Rightarrow> u
      | None \<Rightarrow> c)"

definition lower_char :: "char \<Rightarrow> char" where
  "lower_char c =
     (case map_of (zip ''ABCDEFGHIJKLMNOPQRSTUVWXYZ'' ''abcdefghijklmnopqrstuvwxyz'') c of
        Some l \<Rightarrow> l
      | None \<Rightarrow> c)"

definition py_upper :: "string \<Rightarrow> string" where
  "py_upper s = map upper_char s"

definition py_lower :: "string \<Rightarrow> string" where
  "py_lower s = map lower_char s"

definition is_space :: "char \<Rightarrow> bool" where
  "is_space c = ((of_char c :: nat) \<in> {9, 10, 11, 12, 13, 28, 29, 30, 31, 32})"

definition py_lstrip :: "string \<Rightarrow> string" where
  "py_lstrip s = dropWhile is_space s"

definition py_rstrip :: "string \<Rightarrow> string" where
  "py_rstrip s = rev (dropWhile is_space (rev s))"

definition py_strip :: "string \<Rightarrow> string" where
  "py_strip s = py_rstrip (py_lstrip s)"

definition endswith :: "string \<Rightarrow> string \<Rightarrow> bool" where
  "endswith s suf = (length suf \<le> length s \<and> drop (length s - length suf) s = suf)"

text \<open>\<open>str(n)\<close> for an integer, as an f-string interpolates it.\<close>

fun str_nat :: "nat \<Rightarrow> string" where
  "str_nat n =
     (if n < 10 then [''0123456789'' ! n]
      else str_nat (n div 10) @ [''0123456789'' ! (n mod 10)])"

declare str_nat.simps [simp del]

definition str_int :: "int \<Rightarrow> string" where
  "str_int i = (if i < 0 then CHR ''-'' # str_nat (nat (- i)) else str_nat (nat i))"

text \<open>\<open>range(n)\<close>: the integers from 0 up to \<open>n - 1\<close>, none when \<open>n \<le> 0\<close>.\<close>

definition py_range :: "int \<Rightarrow> int list" where
  "py_range n = [0..n - 1]"

subsection \<open>The built-in \<open>float(str)\<close>\<close>

text \<open>
  After the language reference: surrounding whitespace is stripped (for an ASCII string
  the characters of C's \<open>isspace\<close>, codes 9 to 13 and 32), a sign is optional, then
  either \<open>inf\<close>, \<open>infinity\<close> or \<open>nan\<close> in any letter case, or a decimal number
  \<open>digits [. digits] [e [sign] digits]\<close> with at least one digit in the mantissa; an
  underscore may stand between two digits. \<open>None\<close> is the \<open>ValueError\<close> of a string that
  is not such a literal. A literal is taken at its exact decimal value: its rounding to
  binary64, its overflow to infinity and its underflow to zero are not modelled.
\<close>

definition is_c_space :: "char \<Rightarrow> bool" where
  "is_c_space c = ((of_char c :: nat) \<in> {9, 10, 11, 12, 13, 32})"

definition float_strip :: "string \<Rightarrow> string" where
  "float_strip s = rev (dropWhile is_c_space (rev (dropWhile is_c_space s)))"

definition is_digit :: "char \<Rightarrow> bool" where
  "is_digit c = (c \<in> set ''0123456789'')"

definition digit_val :: "char \<Rightarrow> nat" where
  "digit_val c = (of_char c :: nat) - 48"

definition digits_value :: "string \<Rightarrow> nat" where
  "digits_value ds = foldl (\<lambda>a d. 10 * a + digit_val d) 0 ds"

fun digit_run :: "string \<Rightarrow> string \<times> string" where
  "digit_run [] = ([], [])"
| "digit_run (c # cs) =
     (if is_digit c then
        (case (case cs of
                 u # d # t \<Rightarrow>
                   if u = CHR ''_'' \<and> is_digit d then digit_run (d # t) else digit_run cs
               | _ \<Rightarrow> digit_run cs) of
           (ds, r) \<Rightarrow> (c # ds, r))
      else ([], c # cs))"

definition sign_prefix :: "string \<Rightarrow> bool \<times> string" where
  "sign_prefix s =
     (case s of
        [] \<Rightarrow> (False, [])
      | c # r \<Rightarrow>
          if c = CHR ''-'' then (True, r)
          else if c = CHR ''+'' then (False, r)
          else (False, s))"

definition py_float_number :: "string \<Rightarrow> rat option" where
  "py_float_number s =
     (case digit_run s of
        (ip, r1) \<Rightarrow>
          (case (case r1 of
                   [] \<Rightarrow> ([], r1)
                 | c # t \<Rightarrow> if c = CHR ''.'' then digit_run t else ([], r1)) of
             (fp, r2) \<Rightarrow>
               if ip = [] \<and> fp = [] then None
               else
                 (let m = of_nat (digits_value (ip @ fp)) / 10 ^ length fp in
                  case r2 of
                    [] \<Rightarrow> Some m
                  | e # t \<Rightarrow>
                      if e = CHR ''e'' \<or> e = CHR ''E'' then
                        (case sign_prefix t of
                           (neg, t') \<Rightarrow>
                             (case digit_run t' of
                                (ep, r3) \<Rightarrow>
                                  if ep = [] \<or> r3 \<noteq> [] then None
                                  else if neg then Some (m / 10 ^ digits_value ep)
                                  else Some (m * 10 ^ digits_value ep)))
                      else None)))"

definition py_float :: "string \<Rightarrow> pyfloat option" where
  "py_float s =
     (case sign_prefix (float_strip s) of
        (neg, u) \<Rightarrow>
          if py_lower u = ''inf'' \<or> py_lower u = ''infinity'' then
            Some (if neg then NInf else PInf)
          else if py_lower u = ''nan'' then Some NaN
          else map_option (\<lambda>r. Fin (if neg then - r else r)) (py_float_number u))"

section \<open>Exceptions and float arithmetic\<close>

text \<open>
  Modelled from the spec: the exchange client fails "with an API-level error (carrying a
  status code and message) or an order-rejection error (carrying a status code and
  message)"; the two exception classes belong to the client library, which is not part of
  the repository. \<open>raised\<close> is an exception that the client, \<open>time.sleep\<close> or an
  arithmetic operation raises: one of the two classes the handlers name, or any other
  exception with its class name and \<open>str(e)\<close>.
\<close>

datatype raised =
    BinanceAPIException int string
  | BinanceOrderException int string
  | OtherException string string

text \<open>
  An arithmetic is the rounding of an exact finite result to a float, and the conversion
  of an integer operand to a float, which can raise \<open>OverflowError\<close>.
\<close>

record float_arith =
  fl_round :: "rat \<Rightarrow> pyfloat"
  fl_of_int :: "int \<Rightarrow> raised + pyfloat"

text \<open>
  The operations of IEEE 754: the special values combine by its rules, two finite operands
  give the rounded exact result.
\<close>

fun pf_neg :: "pyfloat \<Rightarrow> pyfloat" where
  "pf_neg NaN = NaN"
| "pf_neg PInf = NInf"
| "pf_neg NInf = PInf"
| "pf_neg (Fin x) = Fin (- x)"

fun pf_add :: "float_arith \<Rightarrow> pyfloat \<Rightarrow> pyfloat \<Rightarrow> pyfloat" where
  "pf_add A NaN b = NaN"
| "pf_add A a NaN = NaN"
| "pf_add A PInf NInf = NaN"
| "pf_add A NInf PInf = NaN"
| "pf_add A PInf b = PInf"
| "pf_add A a PInf = PInf"
| "pf_add A NInf b = NInf"
| "pf_add A a NInf = NInf"
| "pf_add A (Fin x) (Fin y) = fl_round A (x + y)"

definition pf_sub :: "float_arith \<Rightarrow> pyfloat \<Rightarrow> pyfloat \<Rightarrow> pyfloat" where
  "pf_sub A a b = pf_add A a (pf_neg b)"

fun pf_mul :: "float_arith \<Rightarrow> pyfloat \<Rightarrow> pyfloat \<Rightarrow> pyfloat" where
  "pf_mul A NaN b = NaN"
| "pf_mul A a NaN = NaN"
| "pf_mul A (Fin x) (Fin y) = fl_round A (x * y)"
| "pf_mul A (Fin x) PInf = (if x = 0 then NaN else if 0 < x then PInf else NInf)"
| "pf_mul A (Fin x) NInf = (if x = 0 then NaN else if 0 < x then NInf else PInf)"
| "pf_mul A PInf (Fin y) = (if y = 0 then NaN else if 0 < y then PInf else NInf)"
| "pf_mul A NInf (Fin y) = (if y = 0 then NaN else if 0 < y then NInf else PInf)"
| "pf_mul A PInf PInf = PInf"
| "pf_mul A NInf NInf = PInf"
| "pf_mul A PInf NInf = NInf"
| "pf_mul A NInf PInf = NInf"

text \<open>The quotient by a divisor that is not zero.\<close>

fun pf_div :: "float_arith \<Rightarrow> pyfloat \<Rightarrow> pyfloat \<Rightarrow> pyfloat" where
  "pf_div A NaN b = NaN"
| "pf_div A a NaN = NaN"
| "pf_div A (Fin x) (Fin y) = fl_round A (x / y)"
| "pf_div A (Fin x) PInf = Fin 0"
| "pf_div A (Fin x) NInf = Fin 0"
| "pf_div A PInf (Fin y) = (if 0 < y then PInf else NInf)"
| "pf_div A NInf (Fin y) = (if 0 < y then NInf else PInf)"
| "pf_div A a b = NaN"

text \<open>\<open>a / b\<close> on floats: \<open>ZeroDivisionError\<close> on a zero divisor, whatever the dividend.\<close>

definition py_truediv :: "float_arith \<Rightarrow> pyfloat \<Rightarrow> pyfloat \<Rightarrow> raised + pyfloat" where
  "py_truediv A a b =
     (if b = Fin 0 then Inl (OtherException ''ZeroDivisionError'' ''float division by zero'')
      else Inr (pf_div A a b))"

text \<open>
  \<open>a / n\<close> and \<open>a * n\<close> for a float \<open>a\<close> and an integer \<open>n\<close>: the integer is converted
  first.
\<close>

definition py_truediv_int :: "float_arith \<Rightarrow> pyfloat \<Rightarrow> int \<Rightarrow> raised + pyfloat" where
  "py_truediv_int A a n =
     (case fl_of_int A n of
        Inl e \<Rightarrow> Inl e
      | Inr b \<Rightarrow> py_truediv A a b)"

definition py_mul_int :: "float_arith \<Rightarrow> pyfloat \<Rightarrow> int \<Rightarrow> raised + pyfloat" where
  "py_mul_int A a n =
     (case fl_of_int A n of
        Inl e \<Rightarrow> Inl e
      | Inr b \<Rightarrow> Inr (pf_mul A a b))"

text \<open>Exact arithmetic: nothing is rounded and every integer converts.\<close>

definition exact_arith :: float_arith where
  "exact_arith = \<lparr>fl_round = Fin, fl_of_int = (\<lambda>n. Inr (Fin (of_int n)))\<rparr>"

text \<open>
  Binary64, the arithmetic of a CPython float. \<open>round64\<close> rounds to the nearest of the
  numbers \<open>m * 2 ^ (e - 52)\<close> with \<open>e\<close> the exponent of the argument, at least \<open>- 1022\<close>,
  ties going to the even \<open>m\<close>; a result of \<open>2 ^ 1024\<close> or more is an infinity. An integer
  whose rounding would be infinite, one of magnitude \<open>2 ^ 1024 - 2 ^ 970\<close> or more, does
  not convert.
\<close>

fun bit_length :: "nat \<Rightarrow> nat" where
  "bit_length n = (if n = 0 then 0 else Suc (bit_length (n div 2)))"

declare bit_length.simps [simp del]

text \<open>The integer part of the binary logarithm of a positive number.\<close>

definition floor_log2 :: "rat \<Rightarrow> int" where
  "floor_log2 a =
     (if 1 \<le> a then int (bit_length (nat \<lfloor>a\<rfloor>)) - 1
      else
        (let k = bit_length (nat \<lfloor>1 / a\<rfloor>) - 1 in
         if 1 / a = 2 ^ k then - int k else - int k - 1))"

definition pow2 :: "int \<Rightarrow> rat" where
  "pow2 e = (if 0 \<le> e then 2 ^ nat e else 1 / 2 ^ nat (- e))"

definition round_half_even :: "rat \<Rightarrow> int" where
  "round_half_even x =
     (let f = \<lfloor>x\<rfloor>; d = x - of_int f in
      if d < 1 / 2 then f
      else if 1 / 2 < d then f + 1
      else if even f then f
      else f + 1)"

definition round64 :: "rat \<Rightarrow> pyfloat" where
  "round64 x =
     (if x = 0 then Fin 0
      else
        (let a = \<bar>x\<bar>;
             e = max (floor_log2 a) (- 1022);
             ulp = pow2 (e - 52);
             r = of_int (round_half_even (a / ulp)) * ulp
         in if pow2 1024 \<le> r then (if x < 0 then NInf else PInf)
            else Fin (if x < 0 then - r else r)))"

definition int_to_double :: "int \<Rightarrow> raised + pyfloat" where
  "int_to_double n =
     (if 2 ^ 1024 - 2 ^ 970 \<le> \<bar>n\<bar> then
        Inl (OtherException ''OverflowError'' ''int too large to convert to float'')
      else Inr (round64 (of_int n)))"

definition binary64 :: float_arith where
  "binary64 = \<lparr>fl_round = round64, fl_of_int = int_to_double\<rparr>"

section \<open>Validators (utils.py)\<close>

text \<open>
  Every \<open>raise ValueError(...)\<close> of the validators is one constructor, carrying the values
  its message interpolates.
\<close>

datatype validation_error =
    SymbolEmpty
  | SymbolNotUSDT string
  | SymbolTooShort string
  | QuantityNotNumber string
  | QuantityNotPositive pyfloat
  | PriceNotNumber string
  | PriceNotPositive pyfloat
  | InvalidSide string
  | InvalidPriceRange pyfloat pyfloat
  | GridCountTooSmall int
  | TakeProfitNotHigher
  | TakeProfitNotLower

definition validate_symbol :: "string \<Rightarrow> validation_error + string" where
  "validate_symbol symbol =
     (if symbol = [] then Inl SymbolEmpty
      else
        (let sym = py_strip (py_upper symbol) in
         if \<not> endswith sym ''USDT'' then Inl (SymbolNotUSDT sym)
         else if length sym < 5 then Inl (SymbolTooShort sym)
         else Inr sym))"

definition validate_quantity :: "string \<Rightarrow> validation_error + pyfloat" where
  "validate_quantity quantity =
     (case py_float quantity of
        None \<Rightarrow> Inl (QuantityNotNumber quantity)
      | Some qty \<Rightarrow> if pf_le qty (Fin 0) then Inl (QuantityNotPositive qty) else Inr qty)"

definition validate_price :: "string \<Rightarrow> validation_error + pyfloat" where
  "validate_price price =
     (case py_float price of
        None \<Rightarrow> Inl (PriceNotNumber price)
      | Some prc \<Rightarrow> if pf_le prc (Fin 0) then Inl (PriceNotPositive prc) else Inr prc)"

definition validate_side :: "string \<Rightarrow> validation_error + string" where
  "validate_side side =
     (let sd = py_strip (py_upper side) in
      if sd \<notin> set [''BUY'', ''SELL''] then Inl (InvalidSide sd) else Inr sd)"

definition validate_grid_params :: "pyfloat \<Rightarrow> pyfloat \<Rightarrow> int \<Rightarrow> validation_error + unit" where
  "validate_grid_params lower_price upper_price grid_count =
     (if pf_ge lower_price upper_price then Inl (InvalidPriceRange lower_price upper_price)
      else if grid_count < 2 then Inl (GridCountTooSmall grid_count)
      else Inr ())"

section \<open>The exchange client and the effects of a run\<close>

text \<open>What an executor raises: a \<open>ValueError\<close> of a validator, or another exception.\<close>

datatype exn = ValueError validation_error | Raised raised

text \<open>The keyword arguments of one \<open>futures_create_order\<close> call; an absent keyword is \<open>None\<close>.\<close>

record order_request =
  req_symbol :: string
  req_side :: string
  req_type :: string
  req_quantity :: "pyfloat option"
  req_price :: "pyfloat option"
  req_stopPrice :: "pyfloat option"
  req_timeInForce :: "string option"
  req_closePosition :: "string option"

text \<open>
  Modelled from the spec: the response of the client is a read-only value "carrying at
  minimum an identifier, echoed price/quantity, and a status"; the client library that
  builds it is not part of the repository.
\<close>

record order_response =
  resp_orderId :: int
  resp_status :: string
  resp_price :: string
  resp_origQty :: string

text \<open>
  The client is a state machine: a submission reads the exchange's state and the request,
  and answers with a response or an exception. A run records, in order, every submission
  it attempts and every sleep it completes, and the error and warning lines its exception
  handlers write (the info and debug lines, which interpolate floats and dictionaries,
  are not recorded). The client handle is the argument \<open>cl\<close>: \<open>get_binance_client()\<close> is
  taken to have returned it.
\<close>

type_synonym 'c client = "'c \<Rightarrow> order_request \<Rightarrow> (raised + order_response) \<times> 'c"

datatype effect = Submit order_request | Sleep int

datatype level = ERROR | WARNING

record 'c world =
  cstate :: 'c
  effects :: "effect list"
  logs :: "(level \<times> string) list"

definition futures_create_order ::
  "'c client \<Rightarrow> order_request \<Rightarrow> 'c world \<Rightarrow> (raised + order_response) \<times> 'c world" where
  "futures_create_order cl req w =
     (case cl (cstate w) req of
        (out, c') \<Rightarrow> (out, w\<lparr>cstate := c', effects := effects w @ [Submit req]\<rparr>))"

text \<open>
  \<open>time.sleep(t)\<close> for an integer \<open>t\<close>, in CPython: \<open>ValueError\<close> on a negative length,
  \<open>OverflowError\<close> when the length in nanoseconds is beyond 64 bits, that is above
  9223372036 seconds. What the operating system does with a length it is handed is the
  parameter \<open>os\<close>: \<open>None\<close> when the sleep completes, the \<open>OSError\<close> it raises otherwise.
  Interrupts are not modelled.
\<close>

definition py_sleep ::
  "(int \<Rightarrow> raised option) \<Rightarrow> int \<Rightarrow> 'c world \<Rightarrow> (raised + unit) \<times> 'c world" where
  "py_sleep os t w =
     (if t < 0 then (Inl (OtherException ''ValueError'' ''sleep length must be non-negative''), w)
      else if 9223372036 < t then
        (Inl (OtherException ''OverflowError'' ''timestamp too large to convert to C _PyTime_t''), w)
      else
        (case os t of
           Some e \<Rightarrow> (Inl e, w)
         | None \<Rightarrow> (Inr (), w\<lparr>effects := effects w @ [Sleep t]\<rparr>)))"

definition logger_log :: "level \<Rightarrow> string \<Rightarrow> 'c world \<Rightarrow> 'c world" where
  "logger_log lv msg w = w\<lparr>logs := logs w @ [(lv, msg)]\<rparr>"

text \<open>
  The outcomes the client gives to a sequence of requests submitted one after the other,
  from a given state of the exchange.
\<close>

fun feed :: "'c client \<Rightarrow> 'c \<Rightarrow> order_request list \<Rightarrow> (raised + order_response) list" where
  "feed cl c [] = []"
| "feed cl c (r # rs) = (case cl c r of (out, c') \<Rightarrow> out # feed cl c' rs)"

section \<open>Grid strategy (advanced/grid.py)\<close>

text \<open>
  The list comprehension \<open>[lower_price + (step * i) for i in range(grid_count)]\<close>, over
  the indices still to come: the conversion of an index to a float can raise.
\<close>

fun grid_levels_from ::
  "float_arith \<Rightarrow> pyfloat \<Rightarrow> pyfloat \<Rightarrow> int list \<Rightarrow> raised + pyfloat list" where
  "grid_levels_from A lower_price step [] = Inr []"
| "grid_levels_from A lower_price step (i # rest) =
     (case py_mul_int A step i of
        Inl e \<Rightarrow> Inl e
      | Inr si \<Rightarrow>
          (case grid_levels_from A lower_price step rest of
             Inl e \<Rightarrow> Inl e
           | Inr levels \<Rightarrow> Inr (pf_add A lower_price si # levels)))"

definition calculate_grid_levels ::
  "float_arith \<Rightarrow> pyfloat \<Rightarrow> pyfloat \<Rightarrow> int \<Rightarrow> raised + pyfloat list" where
  "calculate_grid_levels A lower_price upper_price grid_count =
     (if grid_count = 1 then
        (case py_truediv_int A (pf_add A lower_price upper_price) 2 of
           Inl e \<Rightarrow> Inl e
         | Inr middle \<Rightarrow> Inr [middle])
      else
        (case py_truediv_int A (pf_sub A upper_price lower_price) (grid_count - 1) of
           Inl e \<Rightarrow> Inl e
         | Inr step \<Rightarrow> grid_levels_from A lower_price step (py_range grid_count)))"

definition grid_request :: "string \<Rightarrow> pyfloat \<Rightarrow> pyfloat \<Rightarrow> order_request" where
  "grid_request symbol quantity_per_grid price =
     \<lparr>req_symbol = symbol, req_side = ''BUY'', req_type = ''LIMIT'',
      req_quantity = Some quantity_per_grid, req_price = Some price,
      req_stopPrice = None, req_timeInForce = Some ''GTC'', req_closePosition = None\<rparr>"

text \<open>
  The \<open>for\<close> loop inside \<open>try\<close>: on an exception it stops and hands the exception and the
  orders placed so far to the handler.
\<close>

fun grid_loop ::
  "'c client \<Rightarrow> string \<Rightarrow> pyfloat \<Rightarrow> pyfloat list \<Rightarrow> order_response list \<Rightarrow> 'c world
    \<Rightarrow> ((raised \<times> order_response list) + order_response list) \<times> 'c world" where
  "grid_loop cl symbol quantity_per_grid [] orders w = (Inr orders, w)"
| "grid_loop cl symbol quantity_per_grid (price # rest) orders w =
     (case futures_create_order cl (grid_request symbol quantity_per_grid price) w of
        (Inl e, w1) \<Rightarrow> (Inl (e, orders), w1)
      | (Inr order, w1) \<Rightarrow> grid_loop cl symbol quantity_per_grid rest (orders @ [order]) w1)"

definition grid_error_line :: "raised \<Rightarrow> int \<Rightarrow> int \<Rightarrow> string" where
  "grid_error_line e k grid_count =
     (case e of
        BinanceAPIException status_code message \<Rightarrow>
          ''Binance API error on grid '' @ str_int k @ ''/'' @ str_int grid_count @ '': ''
            @ str_int status_code @ '' - '' @ message
      | BinanceOrderException status_code message \<Rightarrow>
          ''Binance order error on grid '' @ str_int k @ ''/'' @ str_int grid_count @ '': ''
            @ str_int status_code @ '' - '' @ message
      | OtherException cls text \<Rightarrow>
          ''Unexpected error on grid '' @ str_int k @ ''/'' @ str_int grid_count @ '': '' @ text)"

definition grid_handler :: "raised \<Rightarrow> order_response list \<Rightarrow> int \<Rightarrow> 'c world \<Rightarrow> 'c world" where
  "grid_handler e orders grid_count w =
     logger_log WARNING
       (''Placed '' @ str_int (int (length orders)) @ '' out of '' @ str_int grid_count
          @ '' grids before error'')
       (logger_log ERROR (grid_error_line e (int (length orders) + 1) grid_count) w)"

definition execute_grid_strategy ::
  "float_arith \<Rightarrow> 'c client \<Rightarrow> string \<Rightarrow> pyfloat \<Rightarrow> pyfloat \<Rightarrow> pyfloat \<Rightarrow> int \<Rightarrow> 'c world
    \<Rightarrow> (exn + order_response list) \<times> 'c world" where
  "execute_grid_strategy A cl symbol quantity_per_grid lower_price upper_price grid_count w =
     (case validate_grid_params lower_price upper_price grid_count of
        Inl v \<Rightarrow> (Inl (ValueError v), w)
      | Inr u \<Rightarrow>
          (case calculate_grid_levels A lower_price upper_price grid_count of
             Inl e \<Rightarrow> (Inl (Raised e), w)
           | Inr grid_levels \<Rightarrow>
               (case grid_loop cl symbol quantity_per_grid grid_levels [] w of
                  (Inr orders, w') \<Rightarrow> (Inr orders, w')
                | (Inl (e, orders), w') \<Rightarrow>
                    (Inl (Raised e), grid_handler e orders grid_count w'))))"

section \<open>TWAP strategy (advanced/twap.py)\<close>

definition twap_request :: "string \<Rightarrow> string \<Rightarrow> pyfloat \<Rightarrow> order_request" where
  "twap_request symbol side quantity_per_slice =
     \<lparr>req_symbol = symbol, req_side = side, req_type = ''MARKET'',
      req_quantity = Some quantity_per_slice, req_price = None,
      req_stopPrice = None, req_timeInForce = None, req_closePosition = None\<rparr>"

text \<open>
  The \<open>for i in range(num_slices)\<close> loop inside \<open>try\<close>, over the indices still to run:
  submit, append the response, and sleep unless this was the last slice.
\<close>

fun twap_loop ::
  "(int \<Rightarrow> raised option) \<Rightarrow> 'c client \<Rightarrow> string \<Rightarrow> string \<Rightarrow> pyfloat \<Rightarrow> int \<Rightarrow> int
    \<Rightarrow> int list \<Rightarrow> order_response list \<Rightarrow> 'c world
    \<Rightarrow> ((raised \<times> order_response list) + order_response list) \<times> 'c world" where
  "twap_loop os cl symbol side quantity_per_slice num_slices interval_seconds [] orders w =
     (Inr orders, w)"
| "twap_loop os cl symbol side quantity_per_slice num_slices interval_seconds (i # rest) orders w =
     (case futures_create_order cl (twap_request symbol side quantity_per_slice) w of
        (Inl e, w1) \<Rightarrow> (Inl (e, orders), w1)
      | (Inr order, w1) \<Rightarrow>
          if i < num_slices - 1 then
            (case py_sleep os interval_seconds w1 of
               (Inl e, w2) \<Rightarrow> (Inl (e, orders @ [order]), w2)
             | (Inr u, w2) \<Rightarrow>
                 twap_loop os cl symbol side quantity_per_slice num_slices interval_seconds rest
                   (orders @ [order]) w2)
          else
            twap_loop os cl symbol side quantity_per_slice num_slices interval_seconds rest
              (orders @ [order]) w1)"

definition twap_error_line :: "raised \<Rightarrow> int \<Rightarrow> int \<Rightarrow> string" where
  "twap_error_line e k num_slices =
     (case e of
        BinanceAPIException status_code message \<Rightarrow>
          ''Binance API error on slice '' @ str_int k @ ''/'' @ str_int num_slices @ '': ''
            @ str_int status_code @ '' - '' @ message
      | BinanceOrderException status_code message \<Rightarrow>
          ''Binance order error on slice '' @ str_int k @ ''/'' @ str_int num_slices @ '': ''
            @ str_int status_code @ '' - '' @ message
      | OtherException cls text \<Rightarrow>
          ''Unexpected error on slice '' @ str_int k @ ''/'' @ str_int num_slices @ '': '' @ text)"

definition twap_handler :: "raised \<Rightarrow> order_response list \<Rightarrow> int \<Rightarrow> 'c world \<Rightarrow> 'c world" where
  "twap_handler e orders num_slices w =
     logger_log WARNING
       (''Completed '' @ str_int (int (length orders)) @ '' out of '' @ str_int num_slices
          @ '' slices before error'')
       (logger_log ERROR (twap_error_line e (int (length orders) + 1) num_slices) w)"

definition execute_twap_strategy ::
  "float_arith \<Rightarrow> (int \<Rightarrow> raised option) \<Rightarrow> 'c client \<Rightarrow> string \<Rightarrow> string \<Rightarrow> pyfloat \<Rightarrow> int
    \<Rightarrow> int \<Rightarrow> 'c world \<Rightarrow> (raised + order_response list) \<times> 'c world" where
  "execute_twap_strategy A os cl symbol side total_quantity num_slices interval_seconds w =
     (case py_truediv_int A total_quantity num_slices of
        Inl e \<Rightarrow> (Inl e, w)
      | Inr quantity_per_slice \<Rightarrow>
          (case twap_loop os cl symbol side quantity_per_slice num_slices interval_seconds
                  (py_range num_slices) [] w of
             (Inr orders, w') \<Rightarrow> (Inr orders, w')
           | (Inl (e, orders), w') \<Rightarrow> (Inl e, twap_handler e orders num_slices w')))"

section \<open>OCO-style orders (advanced/oco.py)\<close>

definition take_profit_request :: "string \<Rightarrow> string \<Rightarrow> pyfloat \<Rightarrow> order_request" where
  "take_profit_request symbol close_side take_profit_price =
     \<lparr>req_symbol = symbol, req_side = close_side, req_type = ''TAKE_PROFIT_MARKET'',
      req_quantity = None, req_price = None, req_stopPrice = Some take_profit_price,
      req_timeInForce = None, req_closePosition = Some ''true''\<rparr>"

definition stop_loss_request :: "string \<Rightarrow> string \<Rightarrow> pyfloat \<Rightarrow> order_request" where
  "stop_loss_request symbol close_side stop_loss_price =
     \<lparr>req_symbol = symbol, req_side = close_side, req_type = ''STOP_MARKET'',
      req_quantity = None, req_price = None, req_stopPrice = Some stop_loss_price,
      req_timeInForce = None, req_closePosition = Some ''true''\<rparr>"

definition oco_handler :: "raised \<Rightarrow> 'c world \<Rightarrow> 'c world" where
  "oco_handler e w =
     logger_log ERROR
       (case e of
          BinanceAPIException status_code message \<Rightarrow>
            ''Binance API error: '' @ str_int status_code @ '' - '' @ message
        | BinanceOrderException status_code message \<Rightarrow>
            ''Binance order error: '' @ str_int status_code @ '' - '' @ message
        | OtherException cls text \<Rightarrow>
            ''Unexpected error placing OCO-style orders: '' @ text)
       w"

definition place_oco_style_orders ::
  "'c client \<Rightarrow> string \<Rightarrow> string \<Rightarrow> pyfloat \<Rightarrow> pyfloat \<Rightarrow> pyfloat \<Rightarrow> 'c world
    \<Rightarrow> (raised + order_response \<times> order_response) \<times> 'c world" where
  "place_oco_style_orders cl symbol side quantity take_profit_price stop_loss_price w =
     (let close_side = side in
      case futures_create_order cl (take_profit_request symbol close_side take_profit_price) w of
        (Inl e, w1) \<Rightarrow> (Inl e, oco_handler e w1)
      | (Inr take_profit_order, w1) \<Rightarrow>
          (case futures_create_order cl (stop_loss_request symbol close_side stop_loss_price) w1 of
             (Inl e, w2) \<Rightarrow> (Inl e, oco_handler e w2)
           | (Inr stop_loss_order, w2) \<Rightarrow> (Inr (take_profit_order, stop_loss_order), w2)))"

text \<open>
  The entry point, on \<open>sys.argv\<close>. Every outcome but \<open>Returned\<close> ends in \<open>sys.exit(1)\<close>:
  the usage message, a \<open>ValueError\<close> of a validator or of the price-logic check, or an
  exception that the placement raised. Its prints and log lines are not recorded.
\<close>

datatype main_result = Returned | Usage | ValidationError validation_error | Failed raised

text \<open>The price-logic check of \<open>main\<close>, made after the five validators have returned.\<close>

definition price_logic :: "string \<Rightarrow> pyfloat \<Rightarrow> pyfloat \<Rightarrow> validation_error + unit" where
  "price_logic side take_profit_price stop_loss_price =
     (if side = ''SELL'' then
        (if pf_le take_profit_price stop_loss_price then Inl TakeProfitNotHigher else Inr ())
      else
        (if pf_ge take_profit_price stop_loss_price then Inl TakeProfitNotLower else Inr ()))"

definition oco_main :: "'c client \<Rightarrow> string list \<Rightarrow> 'c world \<Rightarrow> main_result \<times> 'c world" where
  "oco_main cl argv w =
     (if length argv \<noteq> 6 then (Usage, w)
      else
        (case validate_symbol (argv ! 1) of
           Inl v \<Rightarrow> (ValidationError v, w)
         | Inr symbol \<Rightarrow>
        (case validate_side (argv ! 2) of
           Inl v \<Rightarrow> (ValidationError v, w)
         | Inr side \<Rightarrow>
        (case validate_quantity (argv ! 3) of
           Inl v \<Rightarrow> (ValidationError v, w)
         | Inr quantity \<Rightarrow>
        (case validate_price (argv ! 4) of
           Inl v \<Rightarrow> (ValidationError v, w)
         | Inr take_profit_price \<Rightarrow>
        (case validate_price (argv ! 5) of
           Inl v \<Rightarrow> (ValidationError v, w)
         | Inr stop_loss_price \<Rightarrow>
        (case price_logic side take_profit_price stop_loss_price of
           Inl v \<Rightarrow> (ValidationError v, w)
         | Inr u \<Rightarrow>
             (case place_oco_style_orders cl symbol side quantity take_profit_price
                     stop_loss_price w of
                (Inl e, w') \<Rightarrow> (Failed e, w')
              | (Inr placed, w') \<Rightarrow> (Returned, w')))))))))"

section \<open>Notions of the specification and test clients\<close>

text \<open>
  The specification's invariant of a Quantity and of a Price: "positive real number;
  invariant: > 0, finite".
\<close>

definition finite_positive :: "pyfloat \<Rightarrow> bool" where
  "finite_positive v = (case v of Fin r \<Rightarrow> 0 < r | PInf \<Rightarrow> False | NInf \<Rightarrow> False | NaN \<Rightarrow> False)"

text \<open>
  A stub client for concrete runs: its state counts the submissions it has received; the
  \<open>k\<close>-th submission (counted from 1) fails with \<open>e\<close>, every other one is answered with a
  response whose identifier is the number of earlier submissions. With \<open>k = 0\<close> it always
  succeeds.
\<close>

definition stub_response :: "nat \<Rightarrow> order_response" where
  "stub_response c =
     \<lparr>resp_orderId = int c, resp_status = ''NEW'', resp_price = ''0'', resp_origQty = ''0''\<rparr>"

definition stub_client :: "nat \<Rightarrow> raised \<Rightarrow> nat client" where
  "stub_client k e c req = (if Suc c = k then Inl e else Inr (stub_response c), Suc c)"

definition fresh_world :: "nat world" where
  "fresh_world = \<lparr>cstate = 0, effects = [], logs = []\<rparr>"

text \<open>An operating system on which every sleep it is handed completes.\<close>

definition sleeps_complete :: "int \<Rightarrow> raised option" where
  "sleeps_complete t = None"

text \<open>
  The specification's wording of the failure context of a sequenced executor:
  "\<open>{i}/{num_slices} slices completed\<close>". A log reports it when one of its lines contains
  that text.
\<close>

definition spec_completed_context :: "int \<Rightarrow> int \<Rightarrow> string" where
  "spec_completed_context i num_slices =
     str_int i @ ''/'' @ str_int num_slices @ '' slices completed''"

fun starts_with :: "string \<Rightarrow> string \<Rightarrow> bool" where
  "starts_with [] s = True"
| "starts_with (p # ps) [] = False"
| "starts_with (p # ps) (c # cs) = (p = c \<and> starts_with ps cs)"

fun contains :: "string \<Rightarrow> string \<Rightarrow> bool" where
  "contains pat [] = (pat = [])"
| "contains pat (c # cs) = (starts_with pat (c # cs) \<or> contains pat cs)"

definition reports :: "string \<Rightarrow> (level \<times> string) list \<Rightarrow> bool" where
  "reports ctx lg = list_ex (\<lambda>entry. contains ctx (snd entry)) lg"

section \<open>Properties of the arithmetic\<close>

lemma exact_arith_simps:
  "fl_round exact_arith = Fin"
  "fl_of_int exact_arith n = Inr (Fin (of_int n))"
  by (simp_all add: exact_arith_def)

lemma binary64_simps:
  "fl_round binary64 = round64"
  "fl_of_int binary64 = int_to_double"
  by (simp_all add: binary64_def)

lemma bit_length_bounds:
  "0 < n \<Longrightarrow> 2 ^ (bit_length n - 1) \<le> n \<and> n < 2 ^ bit_length n"
proof (induction n rule: bit_length.induct)
  case (1 n)
  show ?case
  proof (cases "n div 2 = 0")
    case True
    with "1.prems" have "n = 1" by (simp add: div_eq_0_iff) 
    then show ?thesis by (simp add: bit_length.simps)
  next
    case False
    then have pos: "0 < n div 2" by simp
    from "1.prems" have n0: "n \<noteq> 0" by simp
    from "1.IH" [OF n0 pos]
    have lo: "2 ^ (bit_length (n div 2) - 1) \<le> n div 2"
      and hi: "n div 2 < 2 ^ bit_length (n div 2)" by simp_all
    have bl: "bit_length n = Suc (bit_length (n div 2))"
      using n0 by (simp add: bit_length.simps [of n])
    have b1: "0 < bit_length (n div 2)"
      using pos by (simp add: bit_length.simps [of "n div 2"])
    then have "(2::nat) ^ bit_length (n div 2) = 2 * 2 ^ (bit_length (n div 2) - 1)"
      by (cases "bit_length (n div 2)") simp_all
    with lo have "2 ^ bit_length (n div 2) \<le> 2 * (n div 2)" by simp
    also have "\<dots> \<le> n" by simp
    finally have l: "2 ^ (bit_length n - 1) \<le> n" by (simp add: bl)
    from hi have "n div 2 + 1 \<le> 2 ^ bit_length (n div 2)" by simp
    then have "2 * (n div 2) + 2 \<le> 2 * 2 ^ bit_length (n div 2)" by simp
    moreover have "n < 2 * (n div 2) + 2" by presburger
    ultimately have h: "n < 2 ^ bit_length n" by (simp add: bl)
    from l h show ?thesis by simp
  qed
qed

lemma round_half_even_of_int: "round_half_even (of_int z) = z"
  by (simp add: round_half_even_def)

lemma round_half_even_ge_floor: "\<lfloor>x\<rfloor> \<le> round_half_even x"
  by (simp add: round_half_even_def Let_def)

lemma pow2_pos: "0 < pow2 e"
  by (simp add: pow2_def)

lemma floor_log2_ge1:
  assumes "1 \<le> a"
  shows "0 \<le> floor_log2 a" and "2 ^ nat (floor_log2 a) \<le> a"
    and "a < 2 ^ nat (floor_log2 a + 1)"
proof -
  let ?n = "nat \<lfloor>a\<rfloor>"
  have n: "0 < ?n" using assms by simp
  have fl: "floor_log2 a = int (bit_length ?n) - 1"
    using assms by (simp add: floor_log2_def)
  from bit_length_bounds [OF n]
  have lo: "2 ^ (bit_length ?n - 1) \<le> ?n" and hi: "?n < 2 ^ bit_length ?n" by simp_all
  have b: "0 < bit_length ?n"
    using n by (simp add: bit_length.simps [of ?n])
  show "0 \<le> floor_log2 a" using b by (simp add: fl)
  have e: "nat (floor_log2 a) = bit_length ?n - 1"
    using b by (simp add: fl)
  have "(2::rat) ^ (bit_length ?n - 1) = of_nat (2 ^ (bit_length ?n - 1))" by simp
  also have "\<dots> \<le> of_nat ?n" using lo by (simp only: of_nat_le_iff)
  also have "\<dots> = of_int \<lfloor>a\<rfloor>" using assms by simp
  also have "\<dots> \<le> a" by simp
  finally show "2 ^ nat (floor_log2 a) \<le> a" by (simp add: e)
  have e1: "nat (floor_log2 a + 1) = bit_length ?n"
    using b by (simp add: fl)
  have "\<lfloor>a\<rfloor> + 1 \<le> int (2 ^ bit_length ?n)"
    using hi assms by simp
  then have "of_int (\<lfloor>a\<rfloor> + 1) \<le> (of_int (int (2 ^ bit_length ?n)) :: rat)"
    by (simp only: of_int_le_iff)
  moreover have "a < of_int (\<lfloor>a\<rfloor> + 1)" by linarith
  ultimately have "a < of_int (int (2 ^ bit_length ?n))" by simp
  then show "a < 2 ^ nat (floor_log2 a + 1)" by (simp add: e1)
qed

lemma round64_of_int:
  assumes "\<bar>k\<bar> \<le> 2 ^ 53"
  shows "round64 (of_int k) = Fin (of_int k)"
proof (cases "k = 0")
  case True
  then show ?thesis by (simp add: round64_def)
next
  case False
  define a :: rat where "a = \<bar>of_int k\<bar>"
  define e where "e = floor_log2 a"
  have a1: "1 \<le> a" using False by (simp add: a_def flip: of_int_abs)
  have aK: "a = of_int \<bar>k\<bar>" by (simp add: a_def)
  have a53: "a \<le> 2 ^ 53"
  proof -
    have "(of_int \<bar>k\<bar> :: rat) \<le> of_int (2 ^ 53)" using assms by (simp only: of_int_le_iff)
    then show ?thesis by (simp add: aK)
  qed
  from floor_log2_ge1 [OF a1]
  have e0: "0 \<le> e" and lo: "2 ^ nat e \<le> a" and hi: "a < 2 ^ nat (e + 1)"
    by (simp_all add: e_def)
  have e53: "e \<le> 53"
  proof (rule ccontr)
    assume "\<not> e \<le> 53"
    then have "54 \<le> nat e" by simp
    then have "(2::rat) ^ 54 \<le> 2 ^ nat e" by (intro power_increasing) simp_all
    with lo a53 show False by simp
  qed
  have mx: "max e (- 1022) = e" using e0 by simp
  have r: "of_int (round_half_even (a / pow2 (e - 52))) * pow2 (e - 52) = a"
  proof (cases "e \<le> 52")
    case True
    then have p: "pow2 (e - 52) = 1 / 2 ^ nat (52 - e)"
      by (cases "e = 52") (simp_all add: pow2_def)
    have "a / pow2 (e - 52) = of_int (\<bar>k\<bar> * 2 ^ nat (52 - e))"
      by (simp add: p aK)
    then have "round_half_even (a / pow2 (e - 52)) = \<bar>k\<bar> * 2 ^ nat (52 - e)"
      by (simp only: round_half_even_of_int)
    then show ?thesis by (simp add: p aK)
  next
    case False
    with e53 have e: "e = 53" by simp
    from lo a53 have a: "a = 2 ^ 53" by (simp add: e)
    have "a / pow2 (e - 52) = of_int (2 ^ 52)" by (simp add: e a pow2_def)
    then have "round_half_even (a / pow2 (e - 52)) = 2 ^ 52"
      by (simp only: round_half_even_of_int)
    then show ?thesis by (simp add: e a pow2_def)
  qed
  have small: "\<not> pow2 1024 \<le> a"
  proof -
    have "(2::rat) ^ 53 < 2 ^ 1024" by (intro power_strict_increasing) simp_all
    with a53 show ?thesis by (simp add: pow2_def)
  qed
  have "round64 (of_int k) = Fin (if (of_int k :: rat) < 0 then - a else a)"
    using False r small by (simp add: round64_def Let_def mx flip: a_def e_def)
  moreover have "(if (of_int k :: rat) < 0 then - a else a) = of_int k"
    by (simp add: a_def)
  ultimately show ?thesis by simp
qed

lemma round64_nonzero:
  assumes "1 \<le> \<bar>x\<bar>"
  shows "round64 x \<noteq> Fin 0"
proof -
  define a where "a = \<bar>x\<bar>"
  define e where "e = floor_log2 a"
  define ulp where "ulp = pow2 (max e (- 1022) - 52)"
  have a1: "1 \<le> a" using assms by (simp add: a_def)
  from floor_log2_ge1 [OF a1]
  have e0: "0 \<le> e" and lo: "2 ^ nat e \<le> a" by (simp_all add: e_def)
  have mx: "max e (- 1022) = e" using e0 by simp
  have up: "0 < ulp" by (simp add: ulp_def pow2_pos)
  have "ulp \<le> 2 ^ nat e"
  proof (cases "52 \<le> e")
    case True
    then have "ulp = 2 ^ nat (e - 52)" by (simp add: ulp_def mx pow2_def)
    also have "\<dots> \<le> 2 ^ nat e" by (intro power_increasing) simp_all
    finally show ?thesis .
  next
    case False
    then have "ulp = 1 / 2 ^ nat (52 - e)" by (simp add: ulp_def mx pow2_def)
    also have "\<dots> \<le> 1" by simp
    also have "\<dots> \<le> 2 ^ nat e" by simp
    finally show ?thesis .
  qed
  with lo have "ulp \<le> a" by simp
  then have "1 \<le> a / ulp" using up by (simp add: le_divide_eq)
  then have "1 \<le> \<lfloor>a / ulp\<rfloor>" by (simp add: le_floor_iff)
  with round_half_even_ge_floor [of "a / ulp"] have "1 \<le> round_half_even (a / ulp)"
    by linarith
  then have "(1::rat) \<le> of_int (round_half_even (a / ulp))"
    by (metis of_int_1 of_int_le_iff)
  then have m0: "round_half_even (a / ulp) \<noteq> 0"
    by auto
  have u0: "ulp \<noteq> 0" using up by simp
  have "x \<noteq> 0" using assms by auto
  then show ?thesis
    using m0 u0 by (simp add: round64_def Let_def flip: a_def e_def ulp_def)
qed

text \<open>
  \<open>floor_log2\<close> is the exponent: the power of two at or below its argument. With it, and
  with the nearest integer, a rounding is determined.
\<close>

lemma pow2_powi: "pow2 e = power_int 2 e"
  by (simp add: pow2_def power_int_def power_one_over inverse_eq_divide)

lemma pow2_mono: "e1 \<le> e2 \<Longrightarrow> pow2 e1 \<le> pow2 e2"
  by (simp add: pow2_powi power_int_increasing)

lemma pow2_strict_mono: "e1 < e2 \<Longrightarrow> pow2 e1 < pow2 e2"
  by (simp add: pow2_powi power_int_strict_increasing)

lemma pow2_add: "pow2 (a + b) = pow2 a * pow2 b"
  by (simp add: pow2_powi power_int_add)

lemma pow2_of_nat: "pow2 (int k) = 2 ^ k"
  by (simp add: pow2_def)

lemma pow2_neg_nat: "pow2 (- int k) = 1 / 2 ^ k"
  by (simp add: pow2_powi power_int_minus inverse_eq_divide)

lemma floor_log2_bounds:
  assumes "0 < a"
  shows "pow2 (floor_log2 a) \<le> a" and "a < pow2 (floor_log2 a + 1)"
proof -
  have "pow2 (floor_log2 a) \<le> a \<and> a < pow2 (floor_log2 a + 1)"
  proof (cases "1 \<le> a")
    case True
    from floor_log2_ge1 [OF True]
    have e0: "0 \<le> floor_log2 a" and lo: "2 ^ nat (floor_log2 a) \<le> a"
      and hi: "a < 2 ^ nat (floor_log2 a + 1)" by simp_all
    from e0 lo hi show ?thesis by (simp add: pow2_def)
  next
    case False
    define b where "b = 1 / a"
    define n where "n = nat \<lfloor>b\<rfloor>"
    define k where "k = bit_length n - 1"
    have a_b: "a = 1 / b" by (simp add: b_def)
    have b1: "1 < b" using False assms by (simp add: b_def)
    then have fb: "1 \<le> \<lfloor>b\<rfloor>" by (simp add: le_floor_iff)
    then have n0: "0 < n" by (simp add: n_def)
    from bit_length_bounds [OF n0]
    have nlo: "2 ^ k \<le> n" and nhi: "n < 2 ^ bit_length n" by (simp_all add: k_def)
    have bl: "bit_length n = Suc k"
      using n0 by (simp add: k_def bit_length.simps [of n])
    have nb: "(of_nat n :: rat) = of_int \<lfloor>b\<rfloor>" using fb by (simp add: n_def)
    have "(2::rat) ^ k = of_nat (2 ^ k)" by simp
    also have "\<dots> \<le> of_nat n" using nlo by (simp only: of_nat_le_iff)
    also have "\<dots> \<le> b" by (simp add: nb)
    finally have lo: "2 ^ k \<le> b" .
    have "n + 1 \<le> 2 ^ Suc k" using nhi by (simp add: bl)
    then have "(of_nat (n + 1) :: rat) \<le> of_nat (2 ^ Suc k)" by (simp only: of_nat_le_iff)
    then have "of_int \<lfloor>b\<rfloor> + 1 \<le> (2::rat) ^ Suc k" by (simp add: nb)
    moreover have "b < of_int \<lfloor>b\<rfloor> + 1" by linarith
    ultimately have hi: "b < 2 ^ Suc k" by linarith
    have bpos: "0 < b" using b1 by simp
    have fl_eq: "floor_log2 a = (if b = 2 ^ k then - int k else - int k - 1)"
      unfolding floor_log2_def Let_def k_def n_def b_def using False by simp
    show ?thesis
    proof (cases "b = 2 ^ k")
      case True
      then have fl: "floor_log2 a = - int k"
        by (simp add: fl_eq)
      have p: "pow2 (- int k) = a" by (simp add: pow2_neg_nat a_b True)
      have "pow2 (- int k + 1) = pow2 (- int k) * pow2 1" by (rule pow2_add)
      moreover have "pow2 1 = 2" by (simp add: pow2_def)
      ultimately have "pow2 (- int k + 1) = 2 * a" by (simp add: p)
      then show ?thesis using assms by (simp add: fl p)
    next
      case neq: False
      then have fl: "floor_log2 a = - int k - 1"
        by (simp add: fl_eq)
      have "- int k - 1 = - int (Suc k)" by simp
      then have p: "pow2 (- int k - 1) = 1 / 2 ^ Suc k" by (simp only: pow2_neg_nat)
      have p1: "pow2 (- int k - 1 + 1) = 1 / 2 ^ k" by (simp add: pow2_neg_nat)
      from lo neq have lo': "2 ^ k < b" by simp
      have c1: "1 / 2 ^ Suc k < a"
        unfolding a_b using hi bpos by (intro divide_strict_left_mono) simp_all
      have c2: "a < 1 / 2 ^ k"
        unfolding a_b using lo' bpos by (intro divide_strict_left_mono) simp_all
      show ?thesis using c1 c2 by (simp only: fl p p1) simp
    qed
  qed
  then show "pow2 (floor_log2 a) \<le> a" and "a < pow2 (floor_log2 a + 1)" by simp_all
qed

lemma floor_log2_unique:
  assumes "0 < a" and "pow2 e \<le> a" and "a < pow2 (e + 1)"
  shows "floor_log2 a = e"
proof -
  from floor_log2_bounds [OF assms(1)]
  have lo: "pow2 (floor_log2 a) \<le> a" and hi: "a < pow2 (floor_log2 a + 1)" by simp_all
  have "floor_log2 a < e + 1"
  proof (rule ccontr)
    assume "\<not> floor_log2 a < e + 1"
    then have "pow2 (e + 1) \<le> pow2 (floor_log2 a)" by (intro pow2_mono) simp
    with lo assms(3) show False by simp
  qed
  moreover have "e < floor_log2 a + 1"
  proof (rule ccontr)
    assume "\<not> e < floor_log2 a + 1"
    then have "pow2 (floor_log2 a + 1) \<le> pow2 e" by (intro pow2_mono) simp
    with hi assms(2) show False by simp
  qed
  ultimately show ?thesis by simp
qed

lemma round_half_even_nearest:
  assumes "\<bar>y - of_int m\<bar> < 1 / 2"
  shows "round_half_even y = m"
proof (cases "of_int m \<le> y")
  case True
  have lt: "y < of_int m + 1 / 2" using assms by linarith
  have f: "\<lfloor>y\<rfloor> = m"
  proof (rule floor_unique)
    show "of_int m \<le> y" by (rule True)
    show "y < of_int m + 1" using lt by simp
  qed
  have "y - of_int m < 1 / 2" using lt by simp
  then show ?thesis by (simp add: round_half_even_def Let_def f)
next
  case False
  have lt: "y < of_int m" and gt: "of_int m - 1 / 2 < y" using False assms by linarith+
  have f: "\<lfloor>y\<rfloor> = m - 1"
  proof (rule floor_unique)
    show "of_int (m - 1) \<le> y" using gt by simp
    show "y < of_int (m - 1) + 1" using lt by simp
  qed
  have "1 / 2 < y - of_int (m - 1)" using gt by simp
  then show ?thesis by (simp add: round_half_even_def Let_def f)
qed

lemma round_half_even_tie:
  assumes "y = of_int m + 1 / 2" and "even m"
  shows "round_half_even y = m"
proof -
  have "\<lfloor>y\<rfloor> = m" by (intro floor_unique) (simp_all add: assms(1))
  then show ?thesis using assms by (simp add: round_half_even_def Let_def)
qed

lemma round64_eval:
  assumes "x \<noteq> 0" and "floor_log2 \<bar>x\<bar> = e" and "- 1022 \<le> e"
    and "round_half_even (\<bar>x\<bar> / pow2 (e - 52)) = m"
    and "of_int m * pow2 (e - 52) < pow2 1024"
  shows "round64 x = Fin (if x < 0 then - (of_int m * pow2 (e - 52)) else of_int m * pow2 (e - 52))"
proof -
  have mx: "max (floor_log2 \<bar>x\<bar>) (- 1022) = e" using assms(2,3) by simp
  have r: "of_int (round_half_even (\<bar>x\<bar> / pow2 (e - 52))) * pow2 (e - 52) = of_int m * pow2 (e - 52)"
    using assms(4) by simp
  show ?thesis
    unfolding round64_def Let_def mx r using assms(1,5) by simp
qed

text \<open>An integer within the range of a double converts, and not to zero unless it is zero.\<close>

lemma int_to_double_in_range:
  "\<bar>n\<bar> < 2 ^ 1024 - 2 ^ 970 \<Longrightarrow> int_to_double n = Inr (round64 (of_int n))"
  by (simp add: int_to_double_def)

lemma int_to_double_small:
  "\<bar>n\<bar> \<le> 2 ^ 53 \<Longrightarrow> int_to_double n = Inr (Fin (of_int n))"
proof -
  assume a: "\<bar>n\<bar> \<le> 2 ^ 53"
  have "(2 :: int) ^ 53 < 2 ^ 1024 - 2 ^ 970" by simp
  with a have "\<bar>n\<bar> < 2 ^ 1024 - 2 ^ 970" by linarith
  then show ?thesis
    using a by (simp add: int_to_double_in_range round64_of_int)
qed

lemma round64_of_int_nonzero: "n \<noteq> 0 \<Longrightarrow> round64 (of_int n) \<noteq> Fin 0"
proof -
  assume "n \<noteq> 0"
  then have "1 \<le> \<bar>n\<bar>" by simp
  then have "(of_int 1 :: rat) \<le> of_int \<bar>n\<bar>" by (simp only: of_int_le_iff)
  then have "1 \<le> \<bar>of_int n :: rat\<bar>" by simp
  then show ?thesis by (rule round64_nonzero)
qed

section \<open>Properties of the grid levels\<close>

lemma grid_levels_from_exact:
  "grid_levels_from exact_arith (Fin L) (Fin s) idx =
     Inr (map (\<lambda>i. Fin (L + s * of_int i)) idx)"
  by (induction idx) (simp_all add: py_mul_int_def exact_arith_simps)

lemma grid_levels_general:
  "N \<noteq> 1 \<Longrightarrow> calculate_grid_levels exact_arith (Fin L) (Fin U) N =
     Inr (map Fin (map (\<lambda>i. L + ((U - L) / of_int (N - 1)) * of_int i) [0..N - 1]))"
  by (simp add: calculate_grid_levels_def py_truediv_int_def py_truediv_def pf_sub_def
      exact_arith_simps grid_levels_from_exact py_range_def comp_def)

lemma grid_levels_strict:
  fixes L U :: rat
  assumes "L < U" "2 \<le> N"
  shows "sorted_wrt (<) (map (\<lambda>i. L + ((U - L) / of_int (N - 1)) * of_int i) [0..N - 1])"
proof -
  have pos: "0 < (U - L) / of_int (N - 1)"
    using assms by simp
  have mono: "\<And>i j :: int. i < j \<Longrightarrow>
      L + ((U - L) / of_int (N - 1)) * of_int i < L + ((U - L) / of_int (N - 1)) * of_int j"
  proof -
    fix i j :: int
    assume "i < j"
    then have "(of_int i :: rat) < of_int j" by simp
    then have "((U - L) / of_int (N - 1)) * of_int i < ((U - L) / of_int (N - 1)) * of_int j"
      by (rule mult_strict_left_mono) (rule pos)
    then show "L + ((U - L) / of_int (N - 1)) * of_int i < L + ((U - L) / of_int (N - 1)) * of_int j"
      by (rule add_strict_left_mono)
  qed
  have "sorted_wrt (\<lambda>i j. L + ((U - L) / of_int (N - 1)) * of_int i
          < L + ((U - L) / of_int (N - 1)) * of_int j) [0..N - 1]"
    by (rule sorted_wrt_mono_rel [OF _ sorted_wrt_upto]) (rule mono)
  then show ?thesis
    by (simp add: sorted_wrt_map)
qed

lemma grid_levels_first:
  "2 \<le> N \<Longrightarrow> hd (map (\<lambda>i. L + ((U - L) / of_int (N - 1)) * of_int i) [0..N - 1]) = (L :: rat)"
  by (simp add: upto_rec1 [of 0 "N - 1"])

lemma grid_levels_last:
  "2 \<le> N \<Longrightarrow> last (map (\<lambda>i. L + ((U - L) / of_int (N - 1)) * of_int i) [0..N - 1]) = (U :: rat)"
  by (simp add: upto_rec2 [of 0 "N - 1"])

lemma grid_levels_midpoint:
  "calculate_grid_levels exact_arith (Fin L) (Fin U) 1 = Inr [Fin ((L + U) / 2)]"
  by (simp add: calculate_grid_levels_def py_truediv_int_def py_truediv_def exact_arith_simps)

text \<open>
  C1. In exact arithmetic, for \<open>L < U\<close> and \<open>N \<ge> 2\<close>, \<open>calculate_grid_levels\<close> returns
  the \<open>N\<close> levels \<open>L + ((U - L) / (N - 1)) * i\<close> for \<open>i\<close> from 0 to \<open>N - 1\<close>; they are
  strictly increasing, the first is \<open>L\<close> and the last is \<open>U\<close>. For \<open>N = 1\<close> it returns the
  single midpoint \<open>(L + U) / 2\<close>.
\<close>

theorem grid_levels_correct:
  "(L < U \<and> 2 \<le> N \<longrightarrow>
      (\<exists>levels. calculate_grid_levels exact_arith (Fin L) (Fin U) N = Inr (map Fin levels)
         \<and> levels = map (\<lambda>i. L + ((U - L) / of_int (N - 1)) * of_int i) [0..N - 1]
         \<and> int (length levels) = N
         \<and> sorted_wrt (<) levels
         \<and> hd levels = L \<and> last levels = U))
   \<and> calculate_grid_levels exact_arith (Fin L) (Fin U) 1 = Inr [Fin ((L + U) / 2)]"
proof (intro conjI impI)
  assume a: "L < U \<and> 2 \<le> N"
  then have n1: "N \<noteq> 1" by simp
  show "\<exists>levels. calculate_grid_levels exact_arith (Fin L) (Fin U) N = Inr (map Fin levels)
         \<and> levels = map (\<lambda>i. L + ((U - L) / of_int (N - 1)) * of_int i) [0..N - 1]
         \<and> int (length levels) = N
         \<and> sorted_wrt (<) levels
         \<and> hd levels = L \<and> last levels = U"
    using a grid_levels_general [OF n1, of L U] grid_levels_strict [of L U N]
      grid_levels_first [of N L U] grid_levels_last [of N L U]
    by simp
next
  show "calculate_grid_levels exact_arith (Fin L) (Fin U) 1 = Inr [Fin ((L + U) / 2)]"
    by (rule grid_levels_midpoint)
qed

theorem grid_levels_correct_witness:
  "(50000 :: rat) < 52000 \<and> (2 :: int) \<le> 5
   \<and> calculate_grid_levels exact_arith (Fin 50000) (Fin 52000) 5 =
       Inr [Fin 50000, Fin 50500, Fin 51000, Fin 51500, Fin 52000]
   \<and> sorted_wrt (<) [50000, 50500, 51000, 51500, 52000 :: rat]
   \<and> calculate_grid_levels exact_arith (Fin 50000) (Fin 52000) 1 = Inr [Fin 51000]"
  using grid_levels_correct [of 50000 52000 5]
  by (simp add: upto.simps)

text \<open>
  C10, as amended. For a count \<open>N \<le> 0\<close> and any bounds the divisor \<open>N - 1\<close> is not zero
  and \<open>range(N)\<close> is empty. In exact arithmetic \<open>calculate_grid_levels\<close> returns the empty
  list. In binary64 it returns the empty list when \<open>N - 1\<close> converts to a float, that is
  when \<open>|N - 1| < 2 ^ 1024 - 2 ^ 970\<close>, and raises \<open>OverflowError\<close> otherwise.
\<close>

theorem grid_levels_nonpositive_count:
  "N \<le> 0 \<Longrightarrow>
     calculate_grid_levels exact_arith L U N = Inr []
     \<and> calculate_grid_levels binary64 L U N =
         (if \<bar>N - 1\<bar> < 2 ^ 1024 - 2 ^ 970 then Inr []
          else Inl (OtherException ''OverflowError'' ''int too large to convert to float''))"
proof -
  assume n: "N \<le> 0"
  then have nz: "N - 1 \<noteq> 0" and n1: "N \<noteq> 1" by simp_all
  have "(of_int (N - 1) :: rat) \<noteq> 0"
    using nz by (simp only: of_int_eq_0_iff not_False_eq_True)
  then have ex: "calculate_grid_levels exact_arith L U N = Inr []"
    using n n1
    by (simp add: calculate_grid_levels_def py_truediv_int_def py_truediv_def exact_arith_simps
        py_range_def)
  have b: "calculate_grid_levels binary64 L U N =
         (if \<bar>N - 1\<bar> < 2 ^ 1024 - 2 ^ 970 then Inr []
          else Inl (OtherException ''OverflowError'' ''int too large to convert to float''))"
  proof (cases "\<bar>N - 1\<bar> < 2 ^ 1024 - 2 ^ 970")
    case True
    have conv: "fl_of_int binary64 (N - 1) = Inr (round64 (of_int (N - 1)))"
      using True by (simp only: binary64_simps int_to_double_in_range)
    have "round64 (of_int (N - 1)) \<noteq> Fin 0"
      using nz by (rule round64_of_int_nonzero)
    then show ?thesis
      using True n n1
      by (simp add: calculate_grid_levels_def py_truediv_int_def py_truediv_def conv py_range_def)
  next
    case False
    then have conv: "fl_of_int binary64 (N - 1) =
        Inl (OtherException ''OverflowError'' ''int too large to convert to float'')"
      by (simp add: binary64_simps int_to_double_def)
    show ?thesis
      using False n1 by (simp add: calculate_grid_levels_def py_truediv_int_def conv)
  qed
  from ex b show ?thesis by simp
qed

theorem grid_levels_nonpositive_count_witness:
  "(0 :: int) \<le> 0 \<and> (- 3 :: int) \<le> 0
   \<and> calculate_grid_levels exact_arith (Fin 50000) (Fin 52000) 0 = Inr []
   \<and> calculate_grid_levels binary64 (Fin 50000) (Fin 52000) 0 = Inr []
   \<and> calculate_grid_levels binary64 PInf NaN (- 3) = Inr []"
  using grid_levels_nonpositive_count [of 0 "Fin 50000" "Fin 52000"]
    grid_levels_nonpositive_count [of "- 3" PInf NaN]
  by simp

text \<open>
  C10 as stated fails: with the count \<open>- (10 ^ 309)\<close> the divisor \<open>N - 1\<close> is beyond the
  range of a double, and the division raises \<open>OverflowError\<close>.
\<close>

theorem grid_levels_count_beyond_double:
  "- (10 ^ 309) \<le> (0 :: int)
   \<and> calculate_grid_levels binary64 (Fin 50000) (Fin 52000) (- (10 ^ 309)) =
       Inl (OtherException ''OverflowError'' ''int too large to convert to float'')"
  by (simp add: calculate_grid_levels_def py_truediv_int_def binary64_simps int_to_double_def)

section \<open>Properties of symbol validation\<close>

lemma upper_char_idem: "upper_char (upper_char c) = upper_char c"
  by (simp add: upper_char_def)

lemma last_dropWhile_nonempty:
  "dropWhile P xs \<noteq> [] \<Longrightarrow> last (dropWhile P xs) = last xs"
proof -
  assume ne: "dropWhile P xs \<noteq> []"
  have "last xs = last (takeWhile P xs @ dropWhile P xs)" by simp
  also have "\<dots> = last (dropWhile P xs)" using ne by (simp only: last_append if_False)
  finally show ?thesis by simp
qed

lemma dropWhile_self: "xs = [] \<or> \<not> P (hd xs) \<Longrightarrow> dropWhile P xs = xs"
  by (cases xs) auto

lemma py_strip_idem: "py_strip (py_strip s) = py_strip s"
proof -
  define u where "u = dropWhile is_space s"
  define v where "v = dropWhile is_space (rev u)"
  have strip: "py_strip s = rev v"
    by (simp add: py_strip_def py_rstrip_def py_lstrip_def u_def v_def)
  have u_hd: "u = [] \<or> \<not> is_space (hd u)"
    unfolding u_def using hd_dropWhile [of is_space s] by blast
  have v_last: "v = [] \<or> \<not> is_space (last v)"
  proof (cases "v = []")
    case True
    then show ?thesis by simp
  next
    case False
    then have "last v = last (rev u)"
      unfolding v_def by (rule last_dropWhile_nonempty)
    moreover have "u \<noteq> []" using False by (auto simp: v_def)
    ultimately have "last v = hd u" by (simp add: last_rev)
    moreover have "\<not> is_space (hd u)" using u_hd \<open>u \<noteq> []\<close> by simp
    ultimately show ?thesis by simp
  qed
  have "rev v = [] \<or> \<not> is_space (hd (rev v))"
    using v_last by (cases "v = []") (simp_all add: hd_rev)
  then have a: "dropWhile is_space (rev v) = rev v"
    by (rule dropWhile_self)
  have b: "dropWhile is_space v = v"
    unfolding v_def by simp
  have "py_strip (rev v) = rev v"
    by (simp add: py_strip_def py_rstrip_def py_lstrip_def a b)
  then show ?thesis by (simp add: strip)
qed

lemma set_py_strip: "set (py_strip s) \<subseteq> set s"
proof -
  have "set (py_strip s) \<subseteq> set (dropWhile is_space (rev (dropWhile is_space s)))"
    by (simp add: py_strip_def py_rstrip_def py_lstrip_def)
  also have "\<dots> \<subseteq> set (rev (dropWhile is_space s))"
    by (auto dest: set_dropWhileD)
  also have "\<dots> \<subseteq> set s"
    by (auto dest: set_dropWhileD)
  finally show ?thesis .
qed

lemma py_upper_strip_upper: "py_upper (py_strip (py_upper s)) = py_strip (py_upper s)"
proof -
  have "\<forall>c \<in> set (py_strip (py_upper s)). upper_char c = c"
  proof
    fix c assume "c \<in> set (py_strip (py_upper s))"
    then have "c \<in> set (py_upper s)" using set_py_strip by blast
    then obtain d where "c = upper_char d" by (auto simp: py_upper_def)
    then show "upper_char c = c" by (simp add: upper_char_idem)
  qed
  then show ?thesis
    unfolding py_upper_def [of "py_strip (py_upper s)"] by (simp add: map_idI)
qed

lemma normalised_fixed: "py_strip (py_upper (py_strip (py_upper s))) = py_strip (py_upper s)"
  by (simp add: py_upper_strip_upper py_strip_idem)

text \<open>
  C9. \<open>validate_symbol\<close> is idempotent: a symbol it returns is accepted again and
  returned unchanged. It rejects \<open>BTC\<close> and \<open>BTCUSD\<close> (neither ends in \<open>USDT\<close>, the
  check that comes first) and the empty string.
\<close>

theorem validate_symbol_idempotent:
  "(validate_symbol s = Inr r \<longrightarrow> validate_symbol r = Inr r)
   \<and> validate_symbol ''BTC'' = Inl (SymbolNotUSDT ''BTC'')
   \<and> validate_symbol ''BTCUSD'' = Inl (SymbolNotUSDT ''BTCUSD'')
   \<and> validate_symbol '''' = Inl SymbolEmpty"
proof (intro conjI impI)
  assume ok: "validate_symbol s = Inr r"
  then have r: "r = py_strip (py_upper s)" and e: "endswith r ''USDT''" and l: "\<not> length r < 5"
    by (auto simp: validate_symbol_def Let_def split: if_splits)
  have fixed: "py_strip (py_upper r) = r"
    unfolding r by (rule normalised_fixed)
  have "r \<noteq> []" using l by auto
  then show "validate_symbol r = Inr r"
    using e l by (simp add: validate_symbol_def fixed)
next
  show "validate_symbol ''BTC'' = Inl (SymbolNotUSDT ''BTC'')"
    by (simp add: validate_symbol_def py_strip_def py_rstrip_def py_lstrip_def py_upper_def
        upper_char_def is_space_def endswith_def)
next
  show "validate_symbol ''BTCUSD'' = Inl (SymbolNotUSDT ''BTCUSD'')"
    by (simp add: validate_symbol_def py_strip_def py_rstrip_def py_lstrip_def py_upper_def
        upper_char_def is_space_def endswith_def)
next
  show "validate_symbol '''' = Inl SymbolEmpty"
    by (simp add: validate_symbol_def)
qed

theorem validate_symbol_idempotent_witness:
  "validate_symbol '' btcusdt '' = Inr ''BTCUSDT'' \<and> validate_symbol ''BTCUSDT'' = Inr ''BTCUSDT''"
proof -
  have a: "validate_symbol '' btcusdt '' = Inr ''BTCUSDT''"
    by (simp add: validate_symbol_def py_strip_def py_rstrip_def py_lstrip_def py_upper_def
        upper_char_def is_space_def endswith_def)
  from validate_symbol_idempotent [of "'' btcusdt ''" "''BTCUSDT''"] a
  show ?thesis by simp
qed

section \<open>Properties of quantity and price validation\<close>

lemma not_le_zero_positive: "\<not> pf_le v (Fin 0) \<Longrightarrow> v \<noteq> NaN \<Longrightarrow> pf_lt (Fin 0) v"
  by (cases v) auto

lemma positive_shape: "pf_lt (Fin 0) v \<Longrightarrow> v = PInf \<or> (\<exists>r. v = Fin r \<and> 0 < r)"
  by (cases v) auto

lemma validate_quantity_fails_iff:
  "isl (validate_quantity s) \<longleftrightarrow>
     (py_float s = None \<or> (\<exists>v. py_float s = Some v \<and> pf_le v (Fin 0)))"
  by (auto simp: validate_quantity_def split: option.splits)

lemma validate_price_fails_iff:
  "isl (validate_price s) \<longleftrightarrow>
     (py_float s = None \<or> (\<exists>v. py_float s = Some v \<and> pf_le v (Fin 0)))"
  by (auto simp: validate_price_def split: option.splits)

lemma validate_quantity_returns:
  "validate_quantity s = Inr v \<Longrightarrow> py_float s = Some v \<and> \<not> pf_le v (Fin 0)"
  by (auto simp: validate_quantity_def split: option.splits if_splits)

lemma validate_price_returns:
  "validate_price s = Inr v \<Longrightarrow> py_float s = Some v \<and> \<not> pf_le v (Fin 0)"
  by (auto simp: validate_price_def split: option.splits if_splits)

lemma py_float_examples:
  "py_float ''0'' = Some (Fin 0)"
  "py_float ''-5'' = Some (Fin (- 5))"
  "py_float ''abc'' = None"
  "py_float ''0.01'' = Some (Fin (1 / 100))"
  "py_float ''inf'' = Some PInf"
  "py_float ''nan'' = Some NaN"
  "py_float ''52000'' = Some (Fin 52000)"
  "py_float ''50000'' = Some (Fin 50000)"
  "py_float ''49000'' = Some (Fin 49000)"
  "py_float ''1'' = Some (Fin 1)"
  by (simp_all add: py_float_def py_float_number_def sign_prefix_def float_strip_def
      is_c_space_def py_lower_def lower_char_def is_digit_def digit_val_def digits_value_def)

text \<open>
  C8, as amended. Each of \<open>validate_quantity\<close> and \<open>validate_price\<close> fails exactly when
  the string is not a float literal or its value is \<open><= 0\<close>; otherwise it returns the
  parsed value, and a returned value other than NaN is \<open>> 0\<close>: a positive finite number or
  positive infinity. Both reject \<open>0\<close>, \<open>-5\<close> and \<open>abc\<close> and accept \<open>0.01\<close>, returning 0.01.
\<close>

theorem validators_positive_or_rejected:
  "(isl (validate_quantity s) \<longleftrightarrow>
      (py_float s = None \<or> (\<exists>v. py_float s = Some v \<and> pf_le v (Fin 0))))
   \<and> (isl (validate_price s) \<longleftrightarrow>
      (py_float s = None \<or> (\<exists>v. py_float s = Some v \<and> pf_le v (Fin 0))))
   \<and> (validate_quantity s = Inr q \<and> q \<noteq> NaN \<longrightarrow>
        py_float s = Some q \<and> (q = PInf \<or> (\<exists>r. q = Fin r \<and> 0 < r)))
   \<and> (validate_price s = Inr p \<and> p \<noteq> NaN \<longrightarrow>
        py_float s = Some p \<and> (p = PInf \<or> (\<exists>r. p = Fin r \<and> 0 < r)))
   \<and> validate_quantity ''0'' = Inl (QuantityNotPositive (Fin 0))
   \<and> validate_quantity ''-5'' = Inl (QuantityNotPositive (Fin (- 5)))
   \<and> validate_quantity ''abc'' = Inl (QuantityNotNumber ''abc'')
   \<and> validate_quantity ''0.01'' = Inr (Fin (1 / 100))
   \<and> validate_price ''0'' = Inl (PriceNotPositive (Fin 0))
   \<and> validate_price ''-5'' = Inl (PriceNotPositive (Fin (- 5)))
   \<and> validate_price ''abc'' = Inl (PriceNotNumber ''abc'')
   \<and> validate_price ''0.01'' = Inr (Fin (1 / 100))"
proof (intro conjI impI)
  show "isl (validate_quantity s) \<longleftrightarrow>
      (py_float s = None \<or> (\<exists>v. py_float s = Some v \<and> pf_le v (Fin 0)))"
    by (rule validate_quantity_fails_iff)
  show "isl (validate_price s) \<longleftrightarrow>
      (py_float s = None \<or> (\<exists>v. py_float s = Some v \<and> pf_le v (Fin 0)))"
    by (rule validate_price_fails_iff)
next
  assume a: "validate_quantity s = Inr q \<and> q \<noteq> NaN"
  then have "py_float s = Some q" and "\<not> pf_le q (Fin 0)"
    using validate_quantity_returns by blast+
  then show "py_float s = Some q" and "q = PInf \<or> (\<exists>r. q = Fin r \<and> 0 < r)"
    using a not_le_zero_positive positive_shape by blast+
next
  assume a: "validate_price s = Inr p \<and> p \<noteq> NaN"
  then have "py_float s = Some p" and "\<not> pf_le p (Fin 0)"
    using validate_price_returns by blast+
  then show "py_float s = Some p" and "p = PInf \<or> (\<exists>r. p = Fin r \<and> 0 < r)"
    using a not_le_zero_positive positive_shape by blast+
qed (simp_all add: validate_quantity_def validate_price_def py_float_examples)

theorem validators_positive_or_rejected_witness:
  "validate_quantity ''0.01'' = Inr (Fin (1 / 100)) \<and> Fin (1 / 100) \<noteq> NaN
   \<and> validate_price ''52000'' = Inr (Fin 52000) \<and> Fin 52000 \<noteq> NaN
   \<and> py_float ''0.01'' = Some (Fin (1 / 100)) \<and> py_float ''52000'' = Some (Fin 52000)
   \<and> \<not> isl (validate_quantity ''0.01'') \<and> isl (validate_price ''-5'')"
proof -
  have a: "validate_price ''52000'' = Inr (Fin 52000)"
    by (simp add: validate_price_def py_float_examples)
  have b: "isl (validate_price ''-5'')"
    using validators_positive_or_rejected [of "''-5''"] by simp
  have c: "\<not> isl (validate_quantity ''0.01'')"
    using validators_positive_or_rejected [of "''0.01''"] by simp
  show ?thesis
    using validators_positive_or_rejected [of "''0.01''" "Fin (1 / 100)" "Fin (1 / 100)"]
      validators_positive_or_rejected [of "''52000''" "Fin 52000" "Fin 52000"] a b c
    by simp
qed

text \<open>
  C8 as stated fails: \<open>float('inf')\<close> is positive infinity, which is not \<open><= 0\<close>, so both
  validators return it, and it is not a finite positive number.
\<close>

theorem validators_return_infinity:
  "validate_quantity ''inf'' = Inr PInf \<and> validate_price ''inf'' = Inr PInf
   \<and> \<not> finite_positive PInf"
  by (simp add: validate_quantity_def validate_price_def py_float_examples finite_positive_def)

text \<open>The string \<open>nan\<close> passes as well: \<open>nan <= 0\<close> is false.\<close>

lemma validators_return_nan:
  "validate_quantity ''nan'' = Inr NaN \<and> validate_price ''nan'' = Inr NaN"
  by (simp add: validate_quantity_def validate_price_def py_float_examples)

section \<open>Properties of the OCO-style orders\<close>

lemma futures_create_order_eq:
  "futures_create_order cl r w =
     (fst (cl (cstate w) r),
      w\<lparr>cstate := snd (cl (cstate w) r), effects := effects w @ [Submit r]\<rparr>)"
  by (simp add: futures_create_order_def case_prod_beta)

lemma oco_take_profit_fails:
  assumes "fst (cl (cstate w) (take_profit_request symbol side tp)) = Inl e"
  shows "fst (place_oco_style_orders cl symbol side q tp sl w) = Inl e"
    and "effects (snd (place_oco_style_orders cl symbol side q tp sl w)) =
           effects w @ [Submit (take_profit_request symbol side tp)]"
  using assms
  by (auto simp: place_oco_style_orders_def futures_create_order_def oco_handler_def
      logger_log_def split: prod.splits sum.splits)

lemma oco_take_profit_succeeds:
  assumes "fst (cl (cstate w) (take_profit_request symbol side tp)) = Inr r"
  shows "effects (snd (place_oco_style_orders cl symbol side q tp sl w)) =
           effects w @ [Submit (take_profit_request symbol side tp),
                        Submit (stop_loss_request symbol side sl)]"
  using assms
  by (auto simp: place_oco_style_orders_def futures_create_order_def oco_handler_def
      logger_log_def split: prod.splits sum.splits)

lemma oco_quantity_unused:
  "place_oco_style_orders cl symbol side q tp sl w =
   place_oco_style_orders cl symbol side q' tp sl w"
  by (simp add: place_oco_style_orders_def)

text \<open>
  C5. Both conditional orders carry the input side unchanged, the flag
  \<open>closePosition = 'true'\<close> and no quantity field; the requests submitted are the
  take-profit request alone or the take-profit request followed by the stop-loss request,
  and neither they nor the result depend on the quantity argument.
\<close>

theorem oco_requests_close_position:
  "(effects (snd (place_oco_style_orders cl symbol side q tp sl w)) =
      effects w @ [Submit (take_profit_request symbol side tp)]
    \<or> effects (snd (place_oco_style_orders cl symbol side q tp sl w)) =
      effects w @ [Submit (take_profit_request symbol side tp),
                   Submit (stop_loss_request symbol side sl)])
   \<and> req_side (take_profit_request symbol side tp) = side
   \<and> req_side (stop_loss_request symbol side sl) = side
   \<and> req_closePosition (take_profit_request symbol side tp) = Some ''true''
   \<and> req_closePosition (stop_loss_request symbol side sl) = Some ''true''
   \<and> req_quantity (take_profit_request symbol side tp) = None
   \<and> req_quantity (stop_loss_request symbol side sl) = None
   \<and> fst (place_oco_style_orders cl symbol side q tp sl w) =
       fst (place_oco_style_orders cl symbol side q' tp sl w)
   \<and> effects (snd (place_oco_style_orders cl symbol side q tp sl w)) =
       effects (snd (place_oco_style_orders cl symbol side q' tp sl w))"
proof -
  have "effects (snd (place_oco_style_orders cl symbol side q tp sl w)) =
      effects w @ [Submit (take_profit_request symbol side tp)]
    \<or> effects (snd (place_oco_style_orders cl symbol side q tp sl w)) =
      effects w @ [Submit (take_profit_request symbol side tp),
                   Submit (stop_loss_request symbol side sl)]"
  proof (cases "fst (cl (cstate w) (take_profit_request symbol side tp))")
    case (Inl e)
    then show ?thesis using oco_take_profit_fails(2) by fast
  next
    case (Inr r)
    then show ?thesis using oco_take_profit_succeeds by fast
  qed
  moreover have "place_oco_style_orders cl symbol side q tp sl w =
      place_oco_style_orders cl symbol side q' tp sl w"
    by (rule oco_quantity_unused)
  ultimately show ?thesis
    by (simp add: take_profit_request_def stop_loss_request_def)
qed

theorem oco_requests_close_position_witness:
  "effects (snd (place_oco_style_orders (stub_client 0 (BinanceAPIException 400 ''rejected''))
      ''BTCUSDT'' ''SELL'' (Fin 1) (Fin 52000) (Fin 50000) fresh_world)) =
     [Submit \<lparr>req_symbol = ''BTCUSDT'', req_side = ''SELL'', req_type = ''TAKE_PROFIT_MARKET'',
        req_quantity = None, req_price = None, req_stopPrice = Some (Fin 52000),
        req_timeInForce = None, req_closePosition = Some ''true''\<rparr>,
      Submit \<lparr>req_symbol = ''BTCUSDT'', req_side = ''SELL'', req_type = ''STOP_MARKET'',
        req_quantity = None, req_price = None, req_stopPrice = Some (Fin 50000),
        req_timeInForce = None, req_closePosition = Some ''true''\<rparr>]
   \<and> effects (snd (place_oco_style_orders (stub_client 0 (BinanceAPIException 400 ''rejected''))
      ''BTCUSDT'' ''SELL'' (Fin 7) (Fin 52000) (Fin 50000) fresh_world)) =
     effects (snd (place_oco_style_orders (stub_client 0 (BinanceAPIException 400 ''rejected''))
      ''BTCUSDT'' ''SELL'' (Fin 1) (Fin 52000) (Fin 50000) fresh_world))"
  using oco_requests_close_position [of "stub_client 0 (BinanceAPIException 400 ''rejected'')"
      "''BTCUSDT''" "''SELL''" "Fin 7" "Fin 52000" "Fin 50000" fresh_world "Fin 1"]
  by (simp add: place_oco_style_orders_def futures_create_order_def stub_client_def
      fresh_world_def take_profit_request_def stop_loss_request_def Let_def)

text \<open>
  C7. The take-profit order, a \<open>TAKE_PROFIT_MARKET\<close> request whose stop price is the
  take-profit price, is submitted first. If that submission fails, the failure is the
  result and the take-profit request is the only submission of the run: the stop-loss
  order is never attempted and nothing is retried. If it succeeds, the stop-loss order, a
  \<open>STOP_MARKET\<close> request whose stop price is the stop-loss price, is the second and last
  submission, made to the exchange in the state the first submission left, and the result
  is its failure or the two responses.
\<close>

theorem oco_take_profit_first:
  assumes "tp_req =
      \<lparr>req_symbol = symbol, req_side = side, req_type = ''TAKE_PROFIT_MARKET'',
       req_quantity = None, req_price = None, req_stopPrice = Some tp,
       req_timeInForce = None, req_closePosition = Some ''true''\<rparr>"
    and "sl_req =
      \<lparr>req_symbol = symbol, req_side = side, req_type = ''STOP_MARKET'',
       req_quantity = None, req_price = None, req_stopPrice = Some sl,
       req_timeInForce = None, req_closePosition = Some ''true''\<rparr>"
  shows "(fst (cl (cstate w) tp_req) = Inl e \<longrightarrow>
      fst (place_oco_style_orders cl symbol side q tp sl w) = Inl e
      \<and> effects (snd (place_oco_style_orders cl symbol side q tp sl w)) =
          effects w @ [Submit tp_req])
   \<and> (fst (cl (cstate w) tp_req) = Inr r \<longrightarrow>
      effects (snd (place_oco_style_orders cl symbol side q tp sl w)) =
          effects w @ [Submit tp_req, Submit sl_req]
      \<and> fst (place_oco_style_orders cl symbol side q tp sl w) =
          (case fst (cl (snd (cl (cstate w) tp_req)) sl_req) of
             Inl e' \<Rightarrow> Inl e'
           | Inr r' \<Rightarrow> Inr (r, r')))"
proof -
  have t: "take_profit_request symbol side tp = tp_req"
    by (simp add: take_profit_request_def assms(1))
  have s: "stop_loss_request symbol side sl = sl_req"
    by (simp add: stop_loss_request_def assms(2))
  have second: "fst (cl (cstate w) tp_req) = Inr r \<Longrightarrow>
      fst (place_oco_style_orders cl symbol side q tp sl w) =
          (case fst (cl (snd (cl (cstate w) tp_req)) sl_req) of
             Inl e' \<Rightarrow> Inl e'
           | Inr r' \<Rightarrow> Inr (r, r'))"
    by (simp add: place_oco_style_orders_def futures_create_order_eq t s Let_def
        split: sum.splits)
  show ?thesis
    using oco_take_profit_fails [of cl w symbol side tp e q sl]
      oco_take_profit_succeeds [of cl w symbol side tp r q sl] second
    by (simp add: t s)
qed

theorem oco_take_profit_first_witness:
  "fst (stub_client 1 (BinanceAPIException 400 ''rejected'') (cstate fresh_world)
      \<lparr>req_symbol = ''BTCUSDT'', req_side = ''SELL'', req_type = ''TAKE_PROFIT_MARKET'',
       req_quantity = None, req_price = None, req_stopPrice = Some (Fin 52000),
       req_timeInForce = None, req_closePosition = Some ''true''\<rparr>)
      = Inl (BinanceAPIException 400 ''rejected'')
   \<and> fst (place_oco_style_orders (stub_client 1 (BinanceAPIException 400 ''rejected''))
          ''BTCUSDT'' ''SELL'' (Fin 1) (Fin 52000) (Fin 50000) fresh_world)
      = Inl (BinanceAPIException 400 ''rejected'')
   \<and> effects (snd (place_oco_style_orders (stub_client 1 (BinanceAPIException 400 ''rejected''))
          ''BTCUSDT'' ''SELL'' (Fin 1) (Fin 52000) (Fin 50000) fresh_world))
      = [Submit \<lparr>req_symbol = ''BTCUSDT'', req_side = ''SELL'', req_type = ''TAKE_PROFIT_MARKET'',
           req_quantity = None, req_price = None, req_stopPrice = Some (Fin 52000),
           req_timeInForce = None, req_closePosition = Some ''true''\<rparr>]
   \<and> fst (stub_client 2 (BinanceAPIException 400 ''rejected'') (cstate fresh_world)
      \<lparr>req_symbol = ''BTCUSDT'', req_side = ''SELL'', req_type = ''TAKE_PROFIT_MARKET'',
       req_quantity = None, req_price = None, req_stopPrice = Some (Fin 52000),
       req_timeInForce = None, req_closePosition = Some ''true''\<rparr>)
      = Inr (stub_response 0)
   \<and> effects (snd (place_oco_style_orders (stub_client 2 (BinanceAPIException 400 ''rejected''))
          ''BTCUSDT'' ''SELL'' (Fin 1) (Fin 52000) (Fin 50000) fresh_world))
      = [Submit \<lparr>req_symbol = ''BTCUSDT'', req_side = ''SELL'', req_type = ''TAKE_PROFIT_MARKET'',
           req_quantity = None, req_price = None, req_stopPrice = Some (Fin 52000),
           req_timeInForce = None, req_closePosition = Some ''true''\<rparr>,
         Submit \<lparr>req_symbol = ''BTCUSDT'', req_side = ''SELL'', req_type = ''STOP_MARKET'',
           req_quantity = None, req_price = None, req_stopPrice = Some (Fin 50000),
           req_timeInForce = None, req_closePosition = Some ''true''\<rparr>]
   \<and> fst (place_oco_style_orders (stub_client 2 (BinanceAPIException 400 ''rejected''))
          ''BTCUSDT'' ''SELL'' (Fin 1) (Fin 52000) (Fin 50000) fresh_world)
      = Inl (BinanceAPIException 400 ''rejected'')
   \<and> fst (place_oco_style_orders (stub_client 0 (BinanceAPIException 400 ''rejected''))
          ''BTCUSDT'' ''SELL'' (Fin 1) (Fin 52000) (Fin 50000) fresh_world)
      = Inr (stub_response 0, stub_response 1)"
proof -
  have c: "effects fresh_world = []" "cstate fresh_world = 0"
    by (simp_all add: fresh_world_def)
  show ?thesis
    using c
      oco_take_profit_first [OF refl refl, of "stub_client 1 (BinanceAPIException 400 ''rejected'')"
        fresh_world "''BTCUSDT''" "''SELL''" "Fin 52000" "BinanceAPIException 400 ''rejected''"
        "Fin 1" "Fin 50000" "stub_response 0"]
      oco_take_profit_first [OF refl refl, of "stub_client 2 (BinanceAPIException 400 ''rejected'')"
        fresh_world "''BTCUSDT''" "''SELL''" "Fin 52000" "BinanceAPIException 400 ''rejected''"
        "Fin 1" "Fin 50000" "stub_response 0"]
      oco_take_profit_first [OF refl refl, of "stub_client 0 (BinanceAPIException 400 ''rejected'')"
        fresh_world "''BTCUSDT''" "''SELL''" "Fin 52000" "BinanceAPIException 400 ''rejected''"
        "Fin 1" "Fin 50000" "stub_response 0"]
    by (simp add: stub_client_def)
qed

section \<open>The price-logic check of the OCO entry point\<close>

lemma validate_symbol_btcusdt: "validate_symbol ''BTCUSDT'' = Inr ''BTCUSDT''"
  by (simp add: validate_symbol_def py_strip_def py_rstrip_def py_lstrip_def py_upper_def
      upper_char_def is_space_def endswith_def)

lemma validate_side_sell: "validate_side ''SELL'' = Inr ''SELL''"
  by (simp add: validate_side_def py_strip_def py_rstrip_def py_lstrip_def py_upper_def
      upper_char_def is_space_def)

lemma validated_arguments:
  "validate_quantity ''0.01'' = Inr (Fin (1 / 100))"
  "validate_price ''nan'' = Inr NaN"
  "validate_price ''52000'' = Inr (Fin 52000)"
  "validate_price ''50000'' = Inr (Fin 50000)"
  "validate_price ''49000'' = Inr (Fin 49000)"
  by (simp_all add: validate_quantity_def validate_price_def py_float_examples)

text \<open>
  For prices that are not NaN the check accepts exactly when the take-profit price is
  above the stop-loss price for SELL, and below it for any other side.
\<close>

lemma price_logic_ordered:
  "tp \<noteq> NaN \<Longrightarrow> sl \<noteq> NaN \<Longrightarrow>
   price_logic side tp sl = Inr () \<longleftrightarrow> (if side = ''SELL'' then pf_lt sl tp else pf_lt tp sl)"
  by (cases tp; cases sl) (auto simp: price_logic_def pf_ge_def)

lemma oco_requests_submitted:
  "effects (snd (place_oco_style_orders cl symbol side q tp sl w)) \<noteq> effects w"
proof (cases "fst (cl (cstate w) (take_profit_request symbol side tp))")
  case (Inl e)
  then show ?thesis using oco_take_profit_fails(2) [of cl w symbol side tp e q sl] by simp
next
  case (Inr r)
  then show ?thesis using oco_take_profit_succeeds [of cl w symbol side tp r q sl] by simp
qed

lemma oco_main_examples:
  "oco_main cl [''oco.py'', ''BTCUSDT'', ''SELL'', ''0.01'', ''49000'', ''50000''] w =
     (ValidationError TakeProfitNotHigher, w)"
  "effects (snd (oco_main cl [''oco.py'', ''BTCUSDT'', ''SELL'', ''0.01'', ''52000'', ''50000''] w)) \<noteq>
     effects w"
  using oco_requests_submitted [of cl "''BTCUSDT''" "''SELL''" "Fin (1 / 100)" "Fin 52000" "Fin 50000" w]
  by (auto simp: oco_main_def validate_symbol_btcusdt validate_side_sell validated_arguments
      price_logic_def split: prod.splits sum.splits)

text \<open>
  C6, at the failing input. With the arguments \<open>BTCUSDT SELL 0.01 nan 50000\<close> the
  take-profit price is NaN, which is not greater than the stop-loss price; yet
  \<open>nan <= 50000\<close> is false, the check raises nothing, and both orders are submitted.
\<close>

theorem oco_main_accepts_nan_take_profit:
  "oco_main (stub_client 0 (BinanceAPIException 400 ''rejected''))
      [''oco.py'', ''BTCUSDT'', ''SELL'', ''0.01'', ''nan'', ''50000''] fresh_world =
     (Returned,
      \<lparr>cstate = 2,
       effects = [Submit (take_profit_request ''BTCUSDT'' ''SELL'' NaN),
                  Submit (stop_loss_request ''BTCUSDT'' ''SELL'' (Fin 50000))],
       logs = []\<rparr>)
   \<and> \<not> pf_lt (Fin 50000) NaN"
  by (simp add: oco_main_def validate_symbol_btcusdt validate_side_sell validated_arguments
      price_logic_def place_oco_style_orders_def futures_create_order_def stub_client_def
      fresh_world_def Let_def)

section \<open>Sequenced submission\<close>

lemma length_feed: "length (feed cl c reqs) = length reqs"
  by (induction reqs arbitrary: c) (auto split: prod.splits)

lemma feed_Cons_success:
  assumes "feed cl c (r # rs) = map Inr resps"
  obtains resp resps' where "resps = resp # resps'" "fst (cl c r) = Inr resp"
    "feed cl (snd (cl c r)) rs = map Inr resps'"
  using assms by (cases resps) (auto split: prod.splits)

lemma feed_Cons_failure:
  assumes "feed cl c (r # rs) = map Inr resps @ Inl e # rest"
  shows "(resps = [] \<and> fst (cl c r) = Inl e)
       \<or> (\<exists>resp resps'. resps = resp # resps' \<and> fst (cl c r) = Inr resp
            \<and> feed cl (snd (cl c r)) rs = map Inr resps' @ Inl e # rest)"
  using assms by (cases resps) (auto split: prod.splits)

lemma map_const_replicate:
  "(\<And>x. x \<in> set xs \<Longrightarrow> f x = a) \<Longrightarrow> map f xs = replicate (length xs) a"
  by (induction xs) auto

lemma upto_all_but_last:
  assumes "0 < n"
  shows "concat (map (\<lambda>i. if i < n - 1 then A else B) [0..n - 1]) =
         concat (replicate (nat n - 1) A) @ B"
proof -
  have split: "[0..n - 1] = [0..n - 2] @ [n - 1]"
    using assms upto_rec2 [of 0 "n - 1"] by simp
  have "map (\<lambda>i. if i < n - 1 then A else B) [0..n - 2] = replicate (length [0..n - 2]) A"
    by (rule map_const_replicate) simp
  moreover have "length [0..n - 2] = nat n - 1"
    using assms by simp
  ultimately show ?thesis
    by (simp add: split)
qed

lemma upto_prefix_before_last:
  assumes "int k < n"
  shows "concat (map (\<lambda>i. if i < n - 1 then A else B) (take k [0..n - 1])) =
         concat (replicate k A)"
proof -
  have len: "length (take k [0..n - 1]) = k"
    using assms by simp
  have "map (\<lambda>i. if i < n - 1 then A else B) (take k [0..n - 1]) =
        replicate (length (take k [0..n - 1])) A"
  proof (rule map_const_replicate)
    fix x assume "x \<in> set (take k [0..n - 1])"
    then obtain j where j: "j < k" "x = take k [0..n - 1] ! j"
      using len by (metis in_set_conv_nth)
    then have "x = [0..n - 1] ! j" by simp
    also have "\<dots> = int j" using j(1) assms by simp
    finally have "x < n - 1" using j(1) assms by simp
    then show "(if x < n - 1 then A else B) = A" by simp
  qed
  then show ?thesis by (simp only: len)
qed

section \<open>Properties of the TWAP run\<close>

lemma py_sleep_completes:
  "0 \<le> t \<and> t \<le> 9223372036 \<and> os t = None \<Longrightarrow>
     py_sleep os t w = (Inr (), w\<lparr>effects := effects w @ [Sleep t]\<rparr>)"
  by (simp add: py_sleep_def)

lemma twap_loop_success:
  assumes "feed cl (cstate w) (replicate (length idx) (twap_request symbol side q)) = map Inr resps"
    and "(\<forall>i \<in> set idx. \<not> i < n - 1) \<or> (0 \<le> t \<and> t \<le> 9223372036 \<and> os t = None)"
  shows "fst (twap_loop os cl symbol side q n t idx orders w) = Inr (orders @ resps)
       \<and> effects (snd (twap_loop os cl symbol side q n t idx orders w)) =
           effects w @ concat (map (\<lambda>i. if i < n - 1
                then [Submit (twap_request symbol side q), Sleep t]
                else [Submit (twap_request symbol side q)]) idx)
       \<and> logs (snd (twap_loop os cl symbol side q n t idx orders w)) = logs w"
  using assms
proof (induction idx arbitrary: orders w resps)
  case Nil
  then show ?case by simp
next
  case (Cons i idx)
  let ?r = "twap_request symbol side q"
  from Cons.prems(1) have "feed cl (cstate w) (?r # replicate (length idx) ?r) = map Inr resps"
    by simp
  then obtain resp resps' where rs: "resps = resp # resps'"
    and out: "fst (cl (cstate w) ?r) = Inr resp"
    and tl: "feed cl (snd (cl (cstate w) ?r)) (replicate (length idx) ?r) = map Inr resps'"
    by (rule feed_Cons_success)
  from Cons.prems(2)
  have rest: "(\<forall>i \<in> set idx. \<not> i < n - 1) \<or> (0 \<le> t \<and> t \<le> 9223372036 \<and> os t = None)"
    by auto
  define w1 where "w1 = w\<lparr>cstate := snd (cl (cstate w) ?r), effects := effects w @ [Submit ?r]\<rparr>"
  define w2 where "w2 = w1\<lparr>effects := effects w1 @ [Sleep t]\<rparr>"
  have sub: "futures_create_order cl ?r w = (Inr resp, w1)"
    using out by (simp add: futures_create_order_eq w1_def)
  show ?case
  proof (cases "i < n - 1")
    case True
    with Cons.prems(2) have "0 \<le> t \<and> t \<le> 9223372036 \<and> os t = None"
      by auto
    then have slp: "py_sleep os t w1 = (Inr (), w2)"
      unfolding w2_def by (rule py_sleep_completes)
    have tl2: "feed cl (cstate w2) (replicate (length idx) ?r) = map Inr resps'"
      using tl by (simp add: w2_def w1_def)
    have step: "twap_loop os cl symbol side q n t (i # idx) orders w =
        twap_loop os cl symbol side q n t idx (orders @ [resp]) w2"
      using sub slp True by simp
    have fields: "effects w2 = effects w @ [Submit ?r, Sleep t]" "logs w2 = logs w"
      by (simp_all add: w2_def w1_def)
    from Cons.IH [OF tl2 rest, of "orders @ [resp]"] True show ?thesis
      by (simp add: step fields rs del: twap_loop.simps)
  next
    case False
    have tl1: "feed cl (cstate w1) (replicate (length idx) ?r) = map Inr resps'"
      using tl by (simp add: w1_def)
    have step: "twap_loop os cl symbol side q n t (i # idx) orders w =
        twap_loop os cl symbol side q n t idx (orders @ [resp]) w1"
      using sub False by simp
    have fields: "effects w1 = effects w @ [Submit ?r]" "logs w1 = logs w"
      by (simp_all add: w1_def)
    from Cons.IH [OF tl1 rest, of "orders @ [resp]"] False show ?thesis
      by (simp add: step fields rs del: twap_loop.simps)
  qed
qed

lemma twap_loop_failure:
  assumes "feed cl (cstate w) (replicate (length idx) (twap_request symbol side q)) =
             map Inr resps @ Inl e # rest"
    and "(\<forall>i \<in> set (take (length resps) idx). \<not> i < n - 1)
         \<or> (0 \<le> t \<and> t \<le> 9223372036 \<and> os t = None)"
  shows "fst (twap_loop os cl symbol side q n t idx orders w) = Inl (e, orders @ resps)
       \<and> effects (snd (twap_loop os cl symbol side q n t idx orders w)) =
           effects w @ concat (map (\<lambda>i. if i < n - 1
                then [Submit (twap_request symbol side q), Sleep t]
                else [Submit (twap_request symbol side q)]) (take (length resps) idx))
             @ [Submit (twap_request symbol side q)]
       \<and> logs (snd (twap_loop os cl symbol side q n t idx orders w)) = logs w"
  using assms
proof (induction idx arbitrary: orders w resps)
  case Nil
  then show ?case by simp
next
  case (Cons i idx)
  let ?r = "twap_request symbol side q"
  from Cons.prems(1) have f: "feed cl (cstate w) (?r # replicate (length idx) ?r) =
      map Inr resps @ Inl e # rest"
    by simp
  define w1 where "w1 = w\<lparr>cstate := snd (cl (cstate w) ?r), effects := effects w @ [Submit ?r]\<rparr>"
  define w2 where "w2 = w1\<lparr>effects := effects w1 @ [Sleep t]\<rparr>"
  from feed_Cons_failure [OF f] show ?case
  proof (elim disjE conjE exE)
    assume "resps = []" and out: "fst (cl (cstate w) ?r) = Inl e"
    have "futures_create_order cl ?r w = (Inl e, w1)"
      using out by (simp add: futures_create_order_eq w1_def)
    then have step: "twap_loop os cl symbol side q n t (i # idx) orders w = (Inl (e, orders), w1)"
      by simp
    have fields: "effects w1 = effects w @ [Submit ?r]" "logs w1 = logs w"
      by (simp_all add: w1_def)
    show ?thesis using \<open>resps = []\<close> by (simp add: step fields del: twap_loop.simps)
  next
    fix resp resps'
    assume rs: "resps = resp # resps'"
      and out: "fst (cl (cstate w) ?r) = Inr resp"
      and tl: "feed cl (snd (cl (cstate w) ?r)) (replicate (length idx) ?r) =
                 map Inr resps' @ Inl e # rest"
    from Cons.prems(2) rs
    have first: "i < n - 1 \<Longrightarrow> 0 \<le> t \<and> t \<le> 9223372036 \<and> os t = None"
      and others: "(\<forall>i \<in> set (take (length resps') idx). \<not> i < n - 1)
         \<or> (0 \<le> t \<and> t \<le> 9223372036 \<and> os t = None)"
      by auto
    have sub: "futures_create_order cl ?r w = (Inr resp, w1)"
      using out by (simp add: futures_create_order_eq w1_def)
    show ?thesis
    proof (cases "i < n - 1")
      case True
      then have "0 \<le> t \<and> t \<le> 9223372036 \<and> os t = None"
        by (rule first)
      then have slp: "py_sleep os t w1 = (Inr (), w2)"
        unfolding w2_def by (rule py_sleep_completes)
      have tl2: "feed cl (cstate w2) (replicate (length idx) ?r) = map Inr resps' @ Inl e # rest"
        using tl by (simp add: w2_def w1_def)
      have step: "twap_loop os cl symbol side q n t (i # idx) orders w =
          twap_loop os cl symbol side q n t idx (orders @ [resp]) w2"
        using sub slp True by simp
      have fields: "effects w2 = effects w @ [Submit ?r, Sleep t]" "logs w2 = logs w"
        by (simp_all add: w2_def w1_def)
      from Cons.IH [OF tl2 others, of "orders @ [resp]"] True show ?thesis
        by (simp add: step fields rs del: twap_loop.simps)
    next
      case False
      have tl1: "feed cl (cstate w1) (replicate (length idx) ?r) = map Inr resps' @ Inl e # rest"
        using tl by (simp add: w1_def)
      have step: "twap_loop os cl symbol side q n t (i # idx) orders w =
          twap_loop os cl symbol side q n t idx (orders @ [resp]) w1"
        using sub False by simp
      have fields: "effects w1 = effects w @ [Submit ?r]" "logs w1 = logs w"
        by (simp_all add: w1_def)
      from Cons.IH [OF tl1 others, of "orders @ [resp]"] False show ?thesis
        by (simp add: step fields rs del: twap_loop.simps)
    qed
  qed
qed

lemma twap_success_run:
  assumes "0 < n"
    and "n = 1 \<or> (0 \<le> t \<and> t \<le> 9223372036 \<and> os t = None)"
    and "py_truediv_int A tq n = Inr q"
    and "feed cl (cstate w) (replicate (nat n) (twap_request symbol side q)) = map Inr resps"
  shows "fst (execute_twap_strategy A os cl symbol side tq n t w) = Inr resps"
    and "effects (snd (execute_twap_strategy A os cl symbol side tq n t w)) =
           effects w @ concat (replicate (nat n - 1) [Submit (twap_request symbol side q), Sleep t])
             @ [Submit (twap_request symbol side q)]"
    and "logs (snd (execute_twap_strategy A os cl symbol side tq n t w)) = logs w"
proof -
  let ?run = "twap_loop os cl symbol side q n t [0..n - 1] [] w"
  have len: "length [0..n - 1] = nat n"
    using assms(1) by simp
  have f: "feed cl (cstate w) (replicate (length [0..n - 1]) (twap_request symbol side q)) =
      map Inr resps"
    using assms(4) by (simp only: len)
  have s: "(\<forall>i \<in> set [0..n - 1]. \<not> i < n - 1) \<or> (0 \<le> t \<and> t \<le> 9223372036 \<and> os t = None)"
    using assms(2) by auto
  from twap_loop_success [where os = os and t = t and orders = "[]", OF f s]
  have run: "fst ?run = Inr resps"
    "effects (snd ?run) = effects w @ concat (map (\<lambda>i. if i < n - 1
        then [Submit (twap_request symbol side q), Sleep t]
        else [Submit (twap_request symbol side q)]) [0..n - 1])"
    "logs (snd ?run) = logs w"
    by simp_all
  have exec: "execute_twap_strategy A os cl symbol side tq n t w = (Inr resps, snd ?run)"
    using run(1)
    by (cases ?run) (simp add: execute_twap_strategy_def assms(3) py_range_def)
  show "fst (execute_twap_strategy A os cl symbol side tq n t w) = Inr resps"
    by (simp add: exec)
  show "effects (snd (execute_twap_strategy A os cl symbol side tq n t w)) =
           effects w @ concat (replicate (nat n - 1) [Submit (twap_request symbol side q), Sleep t])
             @ [Submit (twap_request symbol side q)]"
    using run(2) upto_all_but_last [OF assms(1)] by (simp add: exec)
  show "logs (snd (execute_twap_strategy A os cl symbol side tq n t w)) = logs w"
    using run(3) by (simp add: exec)
qed

lemma twap_failure_run:
  assumes "resps = [] \<or> (0 \<le> t \<and> t \<le> 9223372036 \<and> os t = None)"
    and "py_truediv_int A tq n = Inr q"
    and "feed cl (cstate w) (replicate (nat n) (twap_request symbol side q)) =
           map Inr resps @ Inl e # rest"
  shows "fst (execute_twap_strategy A os cl symbol side tq n t w) = Inl e"
    and "effects (snd (execute_twap_strategy A os cl symbol side tq n t w)) =
           effects w @ concat (replicate (length resps)
               [Submit (twap_request symbol side q), Sleep t])
             @ [Submit (twap_request symbol side q)]"
    and "logs (snd (execute_twap_strategy A os cl symbol side tq n t w)) =
           logs w @ [(ERROR, twap_error_line e (int (length resps) + 1) n),
                     (WARNING, ''Completed '' @ str_int (int (length resps)) @ '' out of ''
                        @ str_int n @ '' slices before error'')]"
proof -
  let ?r = "twap_request symbol side q"
  let ?run = "twap_loop os cl symbol side q n t [0..n - 1] [] w"
  have "length (feed cl (cstate w) (replicate (nat n) ?r)) = nat n"
    by (simp add: length_feed)
  then have k: "length resps < nat n"
    by (simp add: assms(3))
  then have pos: "0 < n" and kn: "int (length resps) < n"
    by simp_all
  have len: "length [0..n - 1] = nat n"
    using pos by simp
  have f: "feed cl (cstate w) (replicate (length [0..n - 1]) ?r) = map Inr resps @ Inl e # rest"
    using assms(3) by (simp only: len)
  have s: "(\<forall>i \<in> set (take (length resps) [0..n - 1]). \<not> i < n - 1)
      \<or> (0 \<le> t \<and> t \<le> 9223372036 \<and> os t = None)"
    using assms(1) by auto
  from twap_loop_failure [where os = os and t = t and orders = "[]", OF f s]
  have run: "fst ?run = Inl (e, resps)"
    "effects (snd ?run) = effects w @ concat (map (\<lambda>i. if i < n - 1
        then [Submit ?r, Sleep t] else [Submit ?r]) (take (length resps) [0..n - 1]))
      @ [Submit ?r]"
    "logs (snd ?run) = logs w"
    by simp_all
  have exec: "execute_twap_strategy A os cl symbol side tq n t w =
      (Inl e, twap_handler e resps n (snd ?run))"
    using run(1)
    by (cases ?run) (simp add: execute_twap_strategy_def assms(2) py_range_def)
  show "fst (execute_twap_strategy A os cl symbol side tq n t w) = Inl e"
    by (simp add: exec)
  show "effects (snd (execute_twap_strategy A os cl symbol side tq n t w)) =
           effects w @ concat (replicate (length resps) [Submit ?r, Sleep t]) @ [Submit ?r]"
    using run(2) upto_prefix_before_last [OF kn]
    by (simp add: exec twap_handler_def logger_log_def)
  show "logs (snd (execute_twap_strategy A os cl symbol side tq n t w)) =
           logs w @ [(ERROR, twap_error_line e (int (length resps) + 1) n),
                     (WARNING, ''Completed '' @ str_int (int (length resps)) @ '' out of ''
                        @ str_int n @ '' slices before error'')]"
    using run(3) by (simp add: exec twap_handler_def logger_log_def)
qed

text \<open>
  The division \<open>total_quantity / num_slices\<close>: in exact arithmetic it is the quotient, in
  binary64 the rounded quotient by the converted count, whenever the count is not zero and,
  in binary64, within the range of a double.
\<close>

lemma py_truediv_int_exact:
  "n \<noteq> 0 \<Longrightarrow> py_truediv_int exact_arith (Fin x) n = Inr (Fin (x / of_int n))"
  by (simp add: py_truediv_int_def py_truediv_def exact_arith_simps)

lemma py_truediv_int_binary64:
  assumes "n \<noteq> 0" and "\<bar>n\<bar> < 2 ^ 1024 - 2 ^ 970"
  shows "py_truediv_int binary64 a n = Inr (pf_div binary64 a (round64 (of_int n)))"
proof -
  have "round64 (of_int n) \<noteq> Fin 0"
    using assms(1) by (rule round64_of_int_nonzero)
  then show ?thesis
    using assms(2)
    by (simp add: py_truediv_int_def py_truediv_def binary64_simps int_to_double_in_range)
qed

text \<open>
  The example of the specification, in binary64: the double nearest to 0.1 divided by 5 is
  the double nearest to 0.02.
\<close>

lemma tenth_over_five:
  "round64 (3602879701896397 / 2 ^ 55 / 5) = Fin (5764607523034235 / 2 ^ 58)"
proof -
  have fl: "floor_log2 \<bar>3602879701896397 / 2 ^ 55 / 5\<bar> = - 6"
    by (rule floor_log2_unique) (simp_all add: pow2_def)
  have rh: "round_half_even (\<bar>3602879701896397 / 2 ^ 55 / 5\<bar> / pow2 (- 6 - 52)) = 5764607523034235"
    by (rule round_half_even_nearest) (simp add: pow2_def)
  show ?thesis
    using round64_eval [OF _ fl _ rh] by (simp add: pow2_def)
qed

lemma example_slice_quantity:
  "py_truediv_int binary64 (Fin (3602879701896397 / 2 ^ 55)) 5 = Inr (Fin (5764607523034235 / 2 ^ 58))"
proof -
  have "int_to_double 5 = Inr (Fin (of_int 5))"
    by (rule int_to_double_small) simp
  then show ?thesis
    using tenth_over_five by (simp add: py_truediv_int_def py_truediv_def binary64_simps)
qed

lemma small_numbers:
  "str_int 1 = ''1''" "str_int 2 = ''2''" "str_int 3 = ''3''" "str_int 5 = ''5''"
  "str_int 400 = ''400''"
  by (simp_all add: str_int_def str_nat.simps)

text \<open>
  C2, as amended. With \<open>num_slices = n > 0\<close>, a division \<open>total_quantity / n\<close> that
  returns \<open>q\<close>, sleeps that complete (for \<open>n > 1\<close>: a length from 0 to 9223372036 that the
  operating system accepts) and a client that answers every one of the \<open>n\<close> submissions
  with a response, the run submits exactly \<open>n\<close> requests one after the other, each a MARKET
  order for the given symbol and side with quantity \<open>q\<close>; it sleeps \<open>interval_seconds\<close>
  after every slice but the last; and it returns the \<open>n\<close> responses in the order of
  submission. For a finite total quantity \<open>x\<close>, \<open>q\<close> is \<open>x / n\<close> in exact arithmetic, and
  in binary64, for \<open>n\<close> up to \<open>2 ^ 53\<close>, the double nearest to \<open>x / n\<close>.
\<close>

theorem twap_all_slices_submitted:
  assumes "0 < n"
    and "n = 1 \<or> (0 \<le> t \<and> t \<le> 9223372036 \<and> os t = None)"
    and "py_truediv_int A tq n = Inr q"
    and "feed cl (cstate w) (replicate (nat n) (twap_request symbol side q)) = map Inr resps"
  shows "fst (execute_twap_strategy A os cl symbol side tq n t w) = Inr resps
    \<and> length resps = nat n
    \<and> effects (snd (execute_twap_strategy A os cl symbol side tq n t w)) =
         effects w @ concat (replicate (nat n - 1) [Submit (twap_request symbol side q), Sleep t])
           @ [Submit (twap_request symbol side q)]
    \<and> twap_request symbol side q =
         \<lparr>req_symbol = symbol, req_side = side, req_type = ''MARKET'',
          req_quantity = Some q, req_price = None, req_stopPrice = None,
          req_timeInForce = None, req_closePosition = None\<rparr>
    \<and> (A = exact_arith \<and> tq = Fin x \<longrightarrow> q = Fin (x / of_int n))
    \<and> (A = binary64 \<and> tq = Fin x \<and> n \<le> 2 ^ 53 \<longrightarrow> q = round64 (x / of_int n))"
proof -
  have "length (feed cl (cstate w) (replicate (nat n) (twap_request symbol side q))) = nat n"
    by (simp add: length_feed)
  then have len: "length resps = nat n"
    by (simp add: assms(4))
  have qx: "A = exact_arith \<and> tq = Fin x \<longrightarrow> q = Fin (x / of_int n)"
    using assms(1,3) py_truediv_int_exact [of n x] by auto
  have qb: "A = binary64 \<and> tq = Fin x \<and> n \<le> 2 ^ 53 \<longrightarrow> q = round64 (x / of_int n)"
  proof (intro impI, elim conjE)
    assume a: "A = binary64" "tq = Fin x" "n \<le> 2 ^ 53"
    have "int_to_double n = Inr (Fin (of_int n))"
      using assms(1) a(3) by (intro int_to_double_small) simp
    then have "py_truediv_int binary64 (Fin x) n = Inr (round64 (x / of_int n))"
      using assms(1) by (simp add: py_truediv_int_def py_truediv_def binary64_simps)
    with assms(3) a(1,2) show "q = round64 (x / of_int n)"
      by simp
  qed
  from len qx qb show ?thesis
    using twap_success_run [where os = os and t = t, OF assms] by (simp add: twap_request_def)
qed

theorem twap_all_slices_submitted_witness:
  "(0 :: int) < 5 \<and> (0 :: int) \<le> 10 \<and> (10 :: int) \<le> 9223372036 \<and> sleeps_complete 10 = None
   \<and> py_truediv_int binary64 (Fin (3602879701896397 / 2 ^ 55)) 5 =
        Inr (Fin (5764607523034235 / 2 ^ 58))
   \<and> round64 (3602879701896397 / 2 ^ 55 / 5) = Fin (5764607523034235 / 2 ^ 58)
   \<and> fst (execute_twap_strategy binary64 sleeps_complete
        (stub_client 0 (BinanceAPIException 400 ''rejected''))
        ''BTCUSDT'' ''BUY'' (Fin (3602879701896397 / 2 ^ 55)) 5 10 fresh_world) =
      Inr [stub_response 0, stub_response 1, stub_response 2, stub_response 3, stub_response 4]
   \<and> effects (snd (execute_twap_strategy binary64 sleeps_complete
        (stub_client 0 (BinanceAPIException 400 ''rejected''))
        ''BTCUSDT'' ''BUY'' (Fin (3602879701896397 / 2 ^ 55)) 5 10 fresh_world)) =
      [Submit (twap_request ''BTCUSDT'' ''BUY'' (Fin (5764607523034235 / 2 ^ 58))), Sleep 10,
       Submit (twap_request ''BTCUSDT'' ''BUY'' (Fin (5764607523034235 / 2 ^ 58))), Sleep 10,
       Submit (twap_request ''BTCUSDT'' ''BUY'' (Fin (5764607523034235 / 2 ^ 58))), Sleep 10,
       Submit (twap_request ''BTCUSDT'' ''BUY'' (Fin (5764607523034235 / 2 ^ 58))), Sleep 10,
       Submit (twap_request ''BTCUSDT'' ''BUY'' (Fin (5764607523034235 / 2 ^ 58)))]"
proof -
  have f: "feed (stub_client 0 (BinanceAPIException 400 ''rejected'')) (cstate fresh_world)
      (replicate (nat 5) (twap_request ''BTCUSDT'' ''BUY'' (Fin (5764607523034235 / 2 ^ 58)))) =
    map Inr [stub_response 0, stub_response 1, stub_response 2, stub_response 3, stub_response 4]"
    by (simp add: stub_client_def fresh_world_def eval_nat_numeral)
  have s: "(5 :: int) = 1 \<or> ((0 :: int) \<le> 10 \<and> (10 :: int) \<le> 9223372036 \<and> sleeps_complete 10 = None)"
    by (simp add: sleeps_complete_def)
  have e: "effects fresh_world = []"
    by (simp add: fresh_world_def)
  from twap_all_slices_submitted [where os = sleeps_complete and t = 10
      and x = "3602879701896397 / 2 ^ 55", OF _ s example_slice_quantity f]
    e example_slice_quantity
  show ?thesis
    by (simp add: eval_nat_numeral sleeps_complete_def)
qed

text \<open>
  C2 as stated fails: with two slices, a client that answers every submission and
  \<open>interval_seconds = 10 ^ 10\<close>, \<open>time.sleep\<close> raises \<open>OverflowError\<close> after the first
  slice; one order has been submitted, not two, and the run returns no list.
\<close>

theorem twap_sleep_too_long:
  "execute_twap_strategy binary64 sleeps_complete (stub_client 0 (BinanceAPIException 400 ''rejected''))
      ''BTCUSDT'' ''BUY'' (Fin 2) 2 (10 ^ 10) fresh_world =
     (Inl (OtherException ''OverflowError'' ''timestamp too large to convert to C _PyTime_t''),
      \<lparr>cstate = 1,
       effects = [Submit (twap_request ''BTCUSDT'' ''BUY'' (Fin 1))],
       logs = [(ERROR, ''Unexpected error on slice 2/2: timestamp too large to convert to C _PyTime_t''),
               (WARNING, ''Completed 1 out of 2 slices before error'')]\<rparr>)"
proof -
  have "int_to_double 2 = Inr (Fin (of_int 2))"
    by (rule int_to_double_small) simp
  moreover have "round64 (of_int 1) = Fin (of_int 1)"
    by (rule round64_of_int) simp
  ultimately have q: "py_truediv_int binary64 (Fin 2) 2 = Inr (Fin 1)"
    by (simp add: py_truediv_int_def py_truediv_def binary64_simps)
  show ?thesis
    by (simp add: execute_twap_strategy_def q py_range_def upto.simps futures_create_order_def
        stub_client_def fresh_world_def py_sleep_def twap_handler_def twap_error_line_def
        logger_log_def small_numbers)
qed

text \<open>
  C3, as amended. When the client answers the first \<open>i - 1\<close> submissions and fails the
  \<open>i\<close>-th, the division having returned \<open>q\<close> and the sleeps after the answered slices
  having completed, the run submits nothing after slice \<open>i\<close>: its submissions are the
  \<open>i - 1\<close> answered ones, each followed by its sleep, and the failed one, with no retry and
  nothing undone. The failure is the result. The handler's error line names the failing
  slice as \<open>slice i/num_slices\<close> and its warning line reports the completed count as
  \<open>Completed (i - 1) out of num_slices slices before error\<close>.
\<close>

theorem twap_failure_context:
  assumes "resps = [] \<or> (0 \<le> t \<and> t \<le> 9223372036 \<and> os t = None)"
    and "py_truediv_int A tq n = Inr q"
    and "feed cl (cstate w) (replicate (nat n) (twap_request symbol side q)) =
           map Inr resps @ Inl e # rest"
  shows "fst (execute_twap_strategy A os cl symbol side tq n t w) = Inl e
    \<and> effects (snd (execute_twap_strategy A os cl symbol side tq n t w)) =
         effects w @ concat (replicate (length resps)
             [Submit (twap_request symbol side q), Sleep t])
           @ [Submit (twap_request symbol side q)]
    \<and> logs (snd (execute_twap_strategy A os cl symbol side tq n t w)) =
         logs w @ [(ERROR, twap_error_line e (int (length resps) + 1) n),
                   (WARNING, ''Completed '' @ str_int (int (length resps)) @ '' out of ''
                      @ str_int n @ '' slices before error'')]
    \<and> twap_error_line (BinanceAPIException code msg) (int (length resps) + 1) n =
         ''Binance API error on slice '' @ str_int (int (length resps) + 1) @ ''/'' @ str_int n
           @ '': '' @ str_int code @ '' - '' @ msg"
  using twap_failure_run [where os = os and t = t, OF assms] by (simp add: twap_error_line_def)

lemma stub_fails_third:
  "feed (stub_client 3 (BinanceAPIException 400 ''rejected'')) (cstate fresh_world)
      (replicate (nat 5) (twap_request ''BTCUSDT'' ''BUY'' (Fin (5764607523034235 / 2 ^ 58)))) =
    map Inr [stub_response 0, stub_response 1] @ Inl (BinanceAPIException 400 ''rejected'')
      # [Inr (stub_response 3), Inr (stub_response 4)]"
  by (simp add: stub_client_def fresh_world_def eval_nat_numeral)

lemma ten_seconds:
  "[stub_response 0, stub_response 1] = []
     \<or> ((0 :: int) \<le> 10 \<and> (10 :: int) \<le> 9223372036 \<and> sleeps_complete 10 = None)"
  by (simp add: sleeps_complete_def)

theorem twap_failure_context_witness:
  "(0 :: int) \<le> 10 \<and> (10 :: int) \<le> 9223372036 \<and> sleeps_complete 10 = None
   \<and> fst (execute_twap_strategy binary64 sleeps_complete
        (stub_client 3 (BinanceAPIException 400 ''rejected''))
        ''BTCUSDT'' ''BUY'' (Fin (3602879701896397 / 2 ^ 55)) 5 10 fresh_world) =
      Inl (BinanceAPIException 400 ''rejected'')
   \<and> effects (snd (execute_twap_strategy binary64 sleeps_complete
        (stub_client 3 (BinanceAPIException 400 ''rejected''))
        ''BTCUSDT'' ''BUY'' (Fin (3602879701896397 / 2 ^ 55)) 5 10 fresh_world)) =
      [Submit (twap_request ''BTCUSDT'' ''BUY'' (Fin (5764607523034235 / 2 ^ 58))), Sleep 10,
       Submit (twap_request ''BTCUSDT'' ''BUY'' (Fin (5764607523034235 / 2 ^ 58))), Sleep 10,
       Submit (twap_request ''BTCUSDT'' ''BUY'' (Fin (5764607523034235 / 2 ^ 58)))]
   \<and> logs (snd (execute_twap_strategy binary64 sleeps_complete
        (stub_client 3 (BinanceAPIException 400 ''rejected''))
        ''BTCUSDT'' ''BUY'' (Fin (3602879701896397 / 2 ^ 55)) 5 10 fresh_world)) =
      [(ERROR, ''Binance API error on slice 3/5: 400 - rejected''),
       (WARNING, ''Completed 2 out of 5 slices before error'')]"
proof -
  have e: "effects fresh_world = []" "logs fresh_world = []"
    by (simp_all add: fresh_world_def)
  from twap_failure_context [where os = sleeps_complete and t = 10 and code = 400
      and msg = "''rejected''", OF ten_seconds example_slice_quantity stub_fails_third] e
  show ?thesis
    by (simp add: eval_nat_numeral small_numbers sleeps_complete_def)
qed

text \<open>
  C3 as stated fails: when the third of five submissions fails, no line of the log says
  \<open>3/5 slices completed\<close>; the lines written are the two below.
\<close>

theorem twap_context_not_as_specified:
  "logs (snd (execute_twap_strategy binary64 sleeps_complete
        (stub_client 3 (BinanceAPIException 400 ''rejected''))
        ''BTCUSDT'' ''BUY'' (Fin (3602879701896397 / 2 ^ 55)) 5 10 fresh_world)) =
      [(ERROR, ''Binance API error on slice 3/5: 400 - rejected''),
       (WARNING, ''Completed 2 out of 5 slices before error'')]
   \<and> \<not> reports (spec_completed_context 3 5)
        (logs (snd (execute_twap_strategy binary64 sleeps_complete
           (stub_client 3 (BinanceAPIException 400 ''rejected''))
           ''BTCUSDT'' ''BUY'' (Fin (3602879701896397 / 2 ^ 55)) 5 10 fresh_world)))"
proof -
  have l: "logs (snd (execute_twap_strategy binary64 sleeps_complete
        (stub_client 3 (BinanceAPIException 400 ''rejected''))
        ''BTCUSDT'' ''BUY'' (Fin (3602879701896397 / 2 ^ 55)) 5 10 fresh_world)) =
      [(ERROR, ''Binance API error on slice 3/5: 400 - rejected''),
       (WARNING, ''Completed 2 out of 5 slices before error'')]"
    using twap_failure_run(3) [where os = sleeps_complete and t = 10,
        OF ten_seconds example_slice_quantity stub_fails_third]
    by (simp add: fresh_world_def twap_error_line_def small_numbers)
  have "\<not> reports (spec_completed_context 3 5)
      [(ERROR, ''Binance API error on slice 3/5: 400 - rejected''),
       (WARNING, ''Completed 2 out of 5 slices before error'')]"
    by (simp add: reports_def spec_completed_context_def small_numbers)
  then show ?thesis by (simp only: l simp_thms)
qed

section \<open>Properties of the grid run\<close>

lemma grid_loop_success:
  assumes "feed cl (cstate w) (map (grid_request symbol q) levels) = map Inr resps"
  shows "fst (grid_loop cl symbol q levels orders w) = Inr (orders @ resps)
       \<and> effects (snd (grid_loop cl symbol q levels orders w)) =
           effects w @ map (\<lambda>p. Submit (grid_request symbol q p)) levels
       \<and> logs (snd (grid_loop cl symbol q levels orders w)) = logs w"
  using assms
proof (induction levels arbitrary: orders w resps)
  case Nil
  then show ?case by simp
next
  case (Cons price levels)
  let ?r = "grid_request symbol q price"
  from Cons.prems have "feed cl (cstate w) (?r # map (grid_request symbol q) levels) = map Inr resps"
    by simp
  then obtain resp resps' where rs: "resps = resp # resps'"
    and out: "fst (cl (cstate w) ?r) = Inr resp"
    and tl: "feed cl (snd (cl (cstate w) ?r)) (map (grid_request symbol q) levels) = map Inr resps'"
    by (rule feed_Cons_success)
  define w1 where "w1 = w\<lparr>cstate := snd (cl (cstate w) ?r), effects := effects w @ [Submit ?r]\<rparr>"
  have sub: "futures_create_order cl ?r w = (Inr resp, w1)"
    using out by (simp add: futures_create_order_eq w1_def)
  have step: "grid_loop cl symbol q (price # levels) orders w =
      grid_loop cl symbol q levels (orders @ [resp]) w1"
    using sub by simp
  have fields: "effects w1 = effects w @ [Submit ?r]" "logs w1 = logs w"
    by (simp_all add: w1_def)
  have tl1: "feed cl (cstate w1) (map (grid_request symbol q) levels) = map Inr resps'"
    using tl by (simp add: w1_def)
  from Cons.IH [OF tl1, of "orders @ [resp]"] show ?case
    by (simp add: step fields rs del: grid_loop.simps)
qed

lemma grid_loop_failure:
  assumes "feed cl (cstate w) (map (grid_request symbol q) levels) = map Inr resps @ Inl e # rest"
  shows "fst (grid_loop cl symbol q levels orders w) = Inl (e, orders @ resps)
       \<and> effects (snd (grid_loop cl symbol q levels orders w)) =
           effects w @ map (\<lambda>p. Submit (grid_request symbol q p)) (take (Suc (length resps)) levels)
       \<and> logs (snd (grid_loop cl symbol q levels orders w)) = logs w"
  using assms
proof (induction levels arbitrary: orders w resps)
  case Nil
  then show ?case by simp
next
  case (Cons price levels)
  let ?r = "grid_request symbol q price"
  from Cons.prems have f: "feed cl (cstate w) (?r # map (grid_request symbol q) levels) =
      map Inr resps @ Inl e # rest"
    by simp
  define w1 where "w1 = w\<lparr>cstate := snd (cl (cstate w) ?r), effects := effects w @ [Submit ?r]\<rparr>"
  have fields: "effects w1 = effects w @ [Submit ?r]" "logs w1 = logs w"
    by (simp_all add: w1_def)
  from feed_Cons_failure [OF f] show ?case
  proof (elim disjE conjE exE)
    assume "resps = []" and out: "fst (cl (cstate w) ?r) = Inl e"
    have "futures_create_order cl ?r w = (Inl e, w1)"
      using out by (simp add: futures_create_order_eq w1_def)
    then have step: "grid_loop cl symbol q (price # levels) orders w = (Inl (e, orders), w1)"
      by simp
    show ?thesis using \<open>resps = []\<close> by (simp add: step fields del: grid_loop.simps)
  next
    fix resp resps'
    assume rs: "resps = resp # resps'"
      and out: "fst (cl (cstate w) ?r) = Inr resp"
      and tl: "feed cl (snd (cl (cstate w) ?r)) (map (grid_request symbol q) levels) =
                 map Inr resps' @ Inl e # rest"
    have sub: "futures_create_order cl ?r w = (Inr resp, w1)"
      using out by (simp add: futures_create_order_eq w1_def)
    have step: "grid_loop cl symbol q (price # levels) orders w =
        grid_loop cl symbol q levels (orders @ [resp]) w1"
      using sub by simp
    have tl1: "feed cl (cstate w1) (map (grid_request symbol q) levels) =
        map Inr resps' @ Inl e # rest"
      using tl by (simp add: w1_def)
    from Cons.IH [OF tl1, of "orders @ [resp]"] show ?thesis
      by (simp add: step fields rs del: grid_loop.simps)
  qed
qed

lemma grid_run:
  assumes "validate_grid_params lower upper n = Inr ()"
    and "calculate_grid_levels A lower upper n = Inr levels"
  shows "execute_grid_strategy A cl symbol q lower upper n w =
     (case grid_loop cl symbol q levels [] w of
        (Inr orders, w') \<Rightarrow> (Inr orders, w')
      | (Inl (e, orders), w') \<Rightarrow> (Inl (Raised e), grid_handler e orders n w'))"
  using assms by (simp add: execute_grid_strategy_def)

lemma grid_success_run:
  assumes "validate_grid_params lower upper n = Inr ()"
    and "calculate_grid_levels A lower upper n = Inr levels"
    and "feed cl (cstate w) (map (grid_request symbol q) levels) = map Inr resps"
  shows "fst (execute_grid_strategy A cl symbol q lower upper n w) = Inr resps"
    and "effects (snd (execute_grid_strategy A cl symbol q lower upper n w)) =
           effects w @ map (\<lambda>p. Submit (grid_request symbol q p)) levels"
    and "logs (snd (execute_grid_strategy A cl symbol q lower upper n w)) = logs w"
proof -
  let ?run = "grid_loop cl symbol q levels [] w"
  from grid_loop_success [OF assms(3), of "[]"]
  have run: "fst ?run = Inr resps"
    "effects (snd ?run) = effects w @ map (\<lambda>p. Submit (grid_request symbol q p)) levels"
    "logs (snd ?run) = logs w"
    by simp_all
  have exec: "execute_grid_strategy A cl symbol q lower upper n w = (Inr resps, snd ?run)"
    using run(1) by (cases ?run) (simp add: grid_run [OF assms(1,2)])
  show "fst (execute_grid_strategy A cl symbol q lower upper n w) = Inr resps"
    by (simp add: exec)
  show "effects (snd (execute_grid_strategy A cl symbol q lower upper n w)) =
           effects w @ map (\<lambda>p. Submit (grid_request symbol q p)) levels"
    using run(2) by (simp add: exec)
  show "logs (snd (execute_grid_strategy A cl symbol q lower upper n w)) = logs w"
    using run(3) by (simp add: exec)
qed

lemma grid_failure_run:
  assumes "validate_grid_params lower upper n = Inr ()"
    and "calculate_grid_levels A lower upper n = Inr levels"
    and "feed cl (cstate w) (map (grid_request symbol q) levels) = map Inr resps @ Inl e # rest"
  shows "fst (execute_grid_strategy A cl symbol q lower upper n w) = Inl (Raised e)"
    and "effects (snd (execute_grid_strategy A cl symbol q lower upper n w)) =
           effects w @ map (\<lambda>p. Submit (grid_request symbol q p)) (take (Suc (length resps)) levels)"
    and "logs (snd (execute_grid_strategy A cl symbol q lower upper n w)) =
           logs w @ [(ERROR, grid_error_line e (int (length resps) + 1) n),
                     (WARNING, ''Placed '' @ str_int (int (length resps)) @ '' out of ''
                        @ str_int n @ '' grids before error'')]"
proof -
  let ?run = "grid_loop cl symbol q levels [] w"
  from grid_loop_failure [OF assms(3), of "[]"]
  have run: "fst ?run = Inl (e, resps)"
    "effects (snd ?run) =
       effects w @ map (\<lambda>p. Submit (grid_request symbol q p)) (take (Suc (length resps)) levels)"
    "logs (snd ?run) = logs w"
    by simp_all
  have exec: "execute_grid_strategy A cl symbol q lower upper n w =
      (Inl (Raised e), grid_handler e resps n (snd ?run))"
    using run(1) by (cases ?run) (simp add: grid_run [OF assms(1,2)])
  show "fst (execute_grid_strategy A cl symbol q lower upper n w) = Inl (Raised e)"
    by (simp add: exec)
  show "effects (snd (execute_grid_strategy A cl symbol q lower upper n w)) =
           effects w @ map (\<lambda>p. Submit (grid_request symbol q p)) (take (Suc (length resps)) levels)"
    using run(2) by (simp add: exec grid_handler_def logger_log_def)
  show "logs (snd (execute_grid_strategy A cl symbol q lower upper n w)) =
           logs w @ [(ERROR, grid_error_line e (int (length resps) + 1) n),
                     (WARNING, ''Placed '' @ str_int (int (length resps)) @ '' out of ''
                        @ str_int n @ '' grids before error'')]"
    using run(3) by (simp add: exec grid_handler_def logger_log_def)
qed

lemma validated_grid_params:
  "validate_grid_params lower upper n = Inr () \<longleftrightarrow> \<not> pf_ge lower upper \<and> 2 \<le> n"
  by (auto simp: validate_grid_params_def)

lemma length_grid_levels_from:
  "grid_levels_from A lower step idx = Inr levels \<Longrightarrow> length levels = length idx"
  by (induction idx arbitrary: levels) (auto split: sum.splits)

lemma length_grid_levels:
  assumes "2 \<le> n" and "calculate_grid_levels A lower upper n = Inr levels"
  shows "int (length levels) = n"
proof -
  from assms obtain step where "grid_levels_from A lower step (py_range n) = Inr levels"
    by (auto simp: calculate_grid_levels_def split: sum.splits)
  then have "length levels = length (py_range n)"
    by (rule length_grid_levels_from)
  then show ?thesis
    using assms(1) by (simp add: py_range_def)
qed

text \<open>Whole numbers up to \<open>2 ^ 53\<close> are doubles, and convert to themselves.\<close>

lemma round64_numeral:
  "(numeral k :: int) \<le> 2 ^ 53 \<Longrightarrow> round64 (numeral k) = Fin (numeral k)"
  using round64_of_int [of "numeral k"] by simp

lemma int_to_double_numeral:
  "(numeral k :: int) \<le> 2 ^ 53 \<Longrightarrow> int_to_double (numeral k) = Inr (Fin (numeral k))"
  using int_to_double_small [of "numeral k"] by simp

lemma round64_zero_one: "round64 0 = Fin 0" "round64 1 = Fin 1"
  using round64_of_int [of 0] round64_of_int [of 1] by simp_all

lemma int_to_double_zero_one: "int_to_double 0 = Inr (Fin 0)" "int_to_double 1 = Inr (Fin 1)"
  using int_to_double_small [of 0] int_to_double_small [of 1] by simp_all

lemma example_levels:
  "calculate_grid_levels binary64 (Fin 50000) (Fin 52000) 5 =
     Inr [Fin 50000, Fin 50500, Fin 51000, Fin 51500, Fin 52000]"
  by (simp add: calculate_grid_levels_def py_truediv_int_def py_truediv_def pf_sub_def
      py_mul_int_def binary64_simps py_range_def upto.simps round64_numeral
      int_to_double_numeral round64_zero_one int_to_double_zero_one)

lemma example_validated: "validate_grid_params (Fin 50000) (Fin 52000) 5 = Inr ()"
  by (simp add: validate_grid_params_def pf_ge_def)

lemma example_grid_all_placed:
  "effects (snd (execute_grid_strategy binary64 (stub_client 0 e) symbol q (Fin 50000) (Fin 52000) 5
      fresh_world)) =
     map (\<lambda>p. Submit (grid_request symbol q p))
       [Fin 50000, Fin 50500, Fin 51000, Fin 51500, Fin 52000]"
proof -
  have f: "feed (stub_client 0 e) (cstate fresh_world)
      (map (grid_request symbol q) [Fin 50000, Fin 50500, Fin 51000, Fin 51500, Fin 52000]) =
    map Inr [stub_response 0, stub_response 1, stub_response 2, stub_response 3, stub_response 4]"
    by (simp add: stub_client_def fresh_world_def eval_nat_numeral)
  have "effects fresh_world = []"
    by (simp add: fresh_world_def)
  with grid_success_run(2) [OF example_validated example_levels f] show ?thesis
    by simp
qed

text \<open>In exact arithmetic the levels between finite bounds ascend strictly.\<close>

lemma exact_levels_ascend:
  assumes "validate_grid_params (Fin L) (Fin U) n = Inr ()"
    and "calculate_grid_levels exact_arith (Fin L) (Fin U) n = Inr levels"
  shows "sorted_wrt pf_lt levels"
proof -
  from assms(1) have lu: "L < U" and n: "2 \<le> n"
    by (auto simp: validated_grid_params pf_ge_def)
  then have n1: "n \<noteq> 1" by simp
  from grid_levels_general [OF n1, of L U] assms(2)
  have "levels = map Fin (map (\<lambda>i. L + ((U - L) / of_int (n - 1)) * of_int i) [0..n - 1])"
    by simp
  moreover have "sorted_wrt (\<lambda>x y. pf_lt (Fin x) (Fin y))
      (map (\<lambda>i. L + ((U - L) / of_int (n - 1)) * of_int i) [0..n - 1])"
    using grid_levels_strict [OF lu n] by simp
  ultimately show ?thesis
    by (simp only: sorted_wrt_map)
qed

text \<open>
  C4, as amended. For validated parameters (\<open>lower_price >= upper_price\<close> false and
  \<open>grid_count \<ge> 2\<close>) and levels that \<open>calculate_grid_levels\<close> has returned, in any
  arithmetic, there are \<open>grid_count\<close> levels and the run submits, with no sleep in
  between, LIMIT BUY orders with time in force GTC and quantity \<open>quantity_per_grid\<close> at the
  levels in the order of their index: all of them when the client answers every
  submission, and the levels up to and including the first one whose submission fails
  otherwise, the failure being the result. In exact arithmetic, between finite bounds, that
  order is strictly ascending in price. In binary64, with bounds 50000 and 52000 and count
  5, the prices submitted are 50000, 50500, 51000, 51500, 52000.
\<close>

theorem grid_orders_ascending:
  assumes "validate_grid_params lower upper n = Inr ()"
    and "calculate_grid_levels A lower upper n = Inr levels"
  shows "int (length levels) = n
    \<and> (feed cl (cstate w) (map (grid_request symbol q) levels) = map Inr resps \<longrightarrow>
         fst (execute_grid_strategy A cl symbol q lower upper n w) = Inr resps
         \<and> effects (snd (execute_grid_strategy A cl symbol q lower upper n w)) =
             effects w @ map (\<lambda>p. Submit (grid_request symbol q p)) levels)
    \<and> (feed cl (cstate w) (map (grid_request symbol q) levels) = map Inr resps @ Inl e # rest \<longrightarrow>
         fst (execute_grid_strategy A cl symbol q lower upper n w) = Inl (Raised e)
         \<and> effects (snd (execute_grid_strategy A cl symbol q lower upper n w)) =
             effects w @ map (\<lambda>p. Submit (grid_request symbol q p))
               (take (Suc (length resps)) levels))
    \<and> grid_request symbol q p =
         \<lparr>req_symbol = symbol, req_side = ''BUY'', req_type = ''LIMIT'',
          req_quantity = Some q, req_price = Some p, req_stopPrice = None,
          req_timeInForce = Some ''GTC'', req_closePosition = None\<rparr>
    \<and> (A = exact_arith \<and> lower = Fin L \<and> upper = Fin U \<longrightarrow> sorted_wrt pf_lt levels)
    \<and> effects (snd (execute_grid_strategy binary64 (stub_client 0 e0) symbol q
           (Fin 50000) (Fin 52000) 5 fresh_world)) =
         map (\<lambda>p. Submit (grid_request symbol q p))
           [Fin 50000, Fin 50500, Fin 51000, Fin 51500, Fin 52000]"
proof -
  have n: "2 \<le> n"
    using assms(1) by (simp add: validated_grid_params)
  have len: "int (length levels) = n"
    using n assms(2) by (rule length_grid_levels)
  have ok: "feed cl (cstate w) (map (grid_request symbol q) levels) = map Inr resps \<longrightarrow>
         fst (execute_grid_strategy A cl symbol q lower upper n w) = Inr resps
         \<and> effects (snd (execute_grid_strategy A cl symbol q lower upper n w)) =
             effects w @ map (\<lambda>p. Submit (grid_request symbol q p)) levels"
    using grid_success_run(1,2) [OF assms] by blast
  have bad: "feed cl (cstate w) (map (grid_request symbol q) levels) = map Inr resps @ Inl e # rest \<longrightarrow>
         fst (execute_grid_strategy A cl symbol q lower upper n w) = Inl (Raised e)
         \<and> effects (snd (execute_grid_strategy A cl symbol q lower upper n w)) =
             effects w @ map (\<lambda>p. Submit (grid_request symbol q p))
               (take (Suc (length resps)) levels)"
    using grid_failure_run(1,2) [OF assms] by blast
  have req: "grid_request symbol q p =
         \<lparr>req_symbol = symbol, req_side = ''BUY'', req_type = ''LIMIT'',
          req_quantity = Some q, req_price = Some p, req_stopPrice = None,
          req_timeInForce = Some ''GTC'', req_closePosition = None\<rparr>"
    by (simp add: grid_request_def)
  have asc: "A = exact_arith \<and> lower = Fin L \<and> upper = Fin U \<longrightarrow> sorted_wrt pf_lt levels"
    using assms exact_levels_ascend by blast
  from len ok bad req asc example_grid_all_placed show ?thesis
    by (intro conjI)
qed

theorem grid_orders_ascending_witness:
  "validate_grid_params (Fin 50000) (Fin 52000) 5 = Inr ()
   \<and> calculate_grid_levels binary64 (Fin 50000) (Fin 52000) 5 =
       Inr [Fin 50000, Fin 50500, Fin 51000, Fin 51500, Fin 52000]
   \<and> calculate_grid_levels exact_arith (Fin 50000) (Fin 52000) 5 =
       Inr [Fin 50000, Fin 50500, Fin 51000, Fin 51500, Fin 52000]
   \<and> sorted_wrt pf_lt [Fin 50000, Fin 50500, Fin 51000, Fin 51500, Fin 52000]
   \<and> feed (stub_client 3 (BinanceAPIException 400 ''rejected'')) (cstate fresh_world)
        (map (grid_request ''BTCUSDT'' (Fin 1))
           [Fin 50000, Fin 50500, Fin 51000, Fin 51500, Fin 52000]) =
      map Inr [stub_response 0, stub_response 1] @ Inl (BinanceAPIException 400 ''rejected'')
        # [Inr (stub_response 3), Inr (stub_response 4)]
   \<and> fst (execute_grid_strategy binary64 (stub_client 3 (BinanceAPIException 400 ''rejected''))
        ''BTCUSDT'' (Fin 1) (Fin 50000) (Fin 52000) 5 fresh_world) =
      Inl (Raised (BinanceAPIException 400 ''rejected''))
   \<and> effects (snd (execute_grid_strategy binary64 (stub_client 3 (BinanceAPIException 400 ''rejected''))
        ''BTCUSDT'' (Fin 1) (Fin 50000) (Fin 52000) 5 fresh_world)) =
      [Submit (grid_request ''BTCUSDT'' (Fin 1) (Fin 50000)),
       Submit (grid_request ''BTCUSDT'' (Fin 1) (Fin 50500)),
       Submit (grid_request ''BTCUSDT'' (Fin 1) (Fin 51000))]
   \<and> fst (execute_grid_strategy exact_arith (stub_client 0 (BinanceAPIException 400 ''rejected''))
        ''BTCUSDT'' (Fin 1) (Fin 50000) (Fin 52000) 5 fresh_world) =
      Inr [stub_response 0, stub_response 1, stub_response 2, stub_response 3, stub_response 4]
   \<and> effects (snd (execute_grid_strategy exact_arith (stub_client 0 (BinanceAPIException 400 ''rejected''))
        ''BTCUSDT'' (Fin 1) (Fin 50000) (Fin 52000) 5 fresh_world)) =
      [Submit (grid_request ''BTCUSDT'' (Fin 1) (Fin 50000)),
       Submit (grid_request ''BTCUSDT'' (Fin 1) (Fin 50500)),
       Submit (grid_request ''BTCUSDT'' (Fin 1) (Fin 51000)),
       Submit (grid_request ''BTCUSDT'' (Fin 1) (Fin 51500)),
       Submit (grid_request ''BTCUSDT'' (Fin 1) (Fin 52000))]"
proof -
  have v: "validate_grid_params (Fin 50000) (Fin 52000) 5 = Inr ()"
    by (simp add: validate_grid_params_def pf_ge_def)
  have lb: "calculate_grid_levels binary64 (Fin 50000) (Fin 52000) 5 =
       Inr [Fin 50000, Fin 50500, Fin 51000, Fin 51500, Fin 52000]"
    by (simp add: calculate_grid_levels_def py_truediv_int_def py_truediv_def pf_sub_def
        py_mul_int_def binary64_simps py_range_def upto.simps round64_numeral
        int_to_double_numeral round64_zero_one int_to_double_zero_one)
  have lx: "calculate_grid_levels exact_arith (Fin 50000) (Fin 52000) 5 =
       Inr [Fin 50000, Fin 50500, Fin 51000, Fin 51500, Fin 52000]"
    by (simp add: calculate_grid_levels_def py_truediv_int_def py_truediv_def pf_sub_def
        py_mul_int_def exact_arith_simps py_range_def upto.simps)
  have f3: "feed (stub_client 3 (BinanceAPIException 400 ''rejected'')) (cstate fresh_world)
        (map (grid_request ''BTCUSDT'' (Fin 1))
           [Fin 50000, Fin 50500, Fin 51000, Fin 51500, Fin 52000]) =
      map Inr [stub_response 0, stub_response 1] @ Inl (BinanceAPIException 400 ''rejected'')
        # [Inr (stub_response 3), Inr (stub_response 4)]"
    by (simp add: stub_client_def fresh_world_def eval_nat_numeral)
  have f0: "feed (stub_client 0 (BinanceAPIException 400 ''rejected'')) (cstate fresh_world)
        (map (grid_request ''BTCUSDT'' (Fin 1))
           [Fin 50000, Fin 50500, Fin 51000, Fin 51500, Fin 52000]) =
      map Inr [stub_response 0, stub_response 1, stub_response 2, stub_response 3, stub_response 4]"
    by (simp add: stub_client_def fresh_world_def eval_nat_numeral)
  have e: "effects fresh_world = []"
    by (simp add: fresh_world_def)
  from grid_orders_ascending [OF v lb, where cl = "stub_client 3 (BinanceAPIException 400 ''rejected'')"
      and w = fresh_world and symbol = "''BTCUSDT''" and q = "Fin 1"
      and resps = "[stub_response 0, stub_response 1]"
      and e = "BinanceAPIException 400 ''rejected''"
      and rest = "[Inr (stub_response 3), Inr (stub_response 4)]"]
    grid_orders_ascending [OF v lx, where cl = "stub_client 0 (BinanceAPIException 400 ''rejected'')"
      and w = fresh_world and symbol = "''BTCUSDT''" and q = "Fin 1"
      and resps = "[stub_response 0, stub_response 1, stub_response 2, stub_response 3,
        stub_response 4]" and L = 50000 and U = 52000]
    v lb lx f3 f0 e
  show ?thesis
    by simp
qed

text \<open>The roundings of the run below, between the doubles 1 and \<open>1 + 2 ^ - 52\<close>.\<close>

lemma round64_ulp_of_one:
  "round64 (1 / 2 ^ 52) = Fin (1 / 2 ^ 52)"
proof -
  have fl: "floor_log2 \<bar>1 / 2 ^ 52\<bar> = - 52"
    by (rule floor_log2_unique) (simp_all add: pow2_def)
  have rh: "round_half_even (\<bar>1 / 2 ^ 52\<bar> / pow2 (- 52 - 52)) = 2 ^ 52"
    by (rule round_half_even_nearest) (simp add: pow2_def)
  show ?thesis
    using round64_eval [OF _ fl _ rh] by (simp add: pow2_def)
qed

lemma round64_half_ulp_of_one:
  "round64 (1 / 2 ^ 53) = Fin (1 / 2 ^ 53)"
proof -
  have fl: "floor_log2 \<bar>1 / 2 ^ 53\<bar> = - 53"
    by (rule floor_log2_unique) (simp_all add: pow2_def)
  have rh: "round_half_even (\<bar>1 / 2 ^ 53\<bar> / pow2 (- 53 - 52)) = 2 ^ 52"
    by (rule round_half_even_nearest) (simp add: pow2_def)
  show ?thesis
    using round64_eval [OF _ fl _ rh] by (simp add: pow2_def)
qed

lemma round64_tie_above_one:
  "round64 (1 + 1 / 2 ^ 53) = Fin 1"
proof -
  have fl: "floor_log2 \<bar>1 + 1 / 2 ^ 53\<bar> = 0"
    by (rule floor_log2_unique) (simp_all add: pow2_def)
  have rh: "round_half_even (\<bar>1 + 1 / 2 ^ 53\<bar> / pow2 (0 - 52)) = 2 ^ 52"
    by (rule round_half_even_tie) (simp_all add: pow2_def)
  show ?thesis
    using round64_eval [OF _ fl _ rh] by (simp add: pow2_def)
qed

lemma round64_next_after_one:
  "round64 (1 + 1 / 2 ^ 52) = Fin (1 + 1 / 2 ^ 52)"
proof -
  have fl: "floor_log2 \<bar>1 + 1 / 2 ^ 52\<bar> = 0"
    by (rule floor_log2_unique) (simp_all add: pow2_def)
  have rh: "round_half_even (\<bar>1 + 1 / 2 ^ 52\<bar> / pow2 (0 - 52)) = 2 ^ 52 + 1"
    by (rule round_half_even_nearest) (simp add: pow2_def)
  show ?thesis
    using round64_eval [OF _ fl _ rh] by (simp add: pow2_def)
qed

lemma levels_above_one:
  "calculate_grid_levels binary64 (Fin 1) (Fin (1 + 1 / 2 ^ 52)) 3 =
     Inr [Fin 1, Fin 1, Fin (1 + 1 / 2 ^ 52)]"
  using round64_ulp_of_one round64_half_ulp_of_one round64_tie_above_one round64_next_after_one
  by (simp add: calculate_grid_levels_def py_truediv_int_def py_truediv_def pf_sub_def
      py_mul_int_def binary64_simps py_range_def upto.simps round64_numeral
      int_to_double_numeral round64_zero_one int_to_double_zero_one)

lemma levels_to_infinity:
  "calculate_grid_levels binary64 (Fin 1) PInf 2 = Inr [NaN, PInf]"
  by (simp add: calculate_grid_levels_def py_truediv_int_def py_truediv_def pf_sub_def
      py_mul_int_def binary64_simps py_range_def upto.simps round64_zero_one
      int_to_double_zero_one)

text \<open>
  C4 as stated fails. In binary64, between the bounds 1 and \<open>1 + 2 ^ - 52\<close>, which are
  consecutive doubles, with count 3, the step is \<open>2 ^ - 53\<close> and the second level rounds
  back to 1: the prices submitted are 1, 1 and \<open>1 + 2 ^ - 52\<close>, which do not ascend
  strictly. And \<open>validate_price\<close> returns infinity for \<open>inf\<close>; between 1 and infinity with
  count 2 the parameters are validated and the prices submitted are NaN and infinity.
\<close>

theorem grid_orders_not_ascending:
  "validate_grid_params (Fin 1) (Fin (1 + 1 / 2 ^ 52)) 3 = Inr ()
   \<and> effects (snd (execute_grid_strategy binary64
        (stub_client 0 (BinanceAPIException 400 ''rejected''))
        ''BTCUSDT'' (Fin 1) (Fin 1) (Fin (1 + 1 / 2 ^ 52)) 3 fresh_world)) =
       map (\<lambda>p. Submit (grid_request ''BTCUSDT'' (Fin 1) p))
         [Fin 1, Fin 1, Fin (1 + 1 / 2 ^ 52)]
   \<and> \<not> sorted_wrt pf_lt [Fin 1, Fin 1, Fin (1 + 1 / 2 ^ 52)]
   \<and> validate_price ''1'' = Inr (Fin 1) \<and> validate_price ''inf'' = Inr PInf
   \<and> validate_grid_params (Fin 1) PInf 2 = Inr ()
   \<and> effects (snd (execute_grid_strategy binary64
        (stub_client 0 (BinanceAPIException 400 ''rejected''))
        ''BTCUSDT'' (Fin 1) (Fin 1) PInf 2 fresh_world)) =
       map (\<lambda>p. Submit (grid_request ''BTCUSDT'' (Fin 1) p)) [NaN, PInf]
   \<and> \<not> sorted_wrt pf_lt [NaN, PInf]"
proof -
  have v1: "validate_grid_params (Fin 1) (Fin (1 + 1 / 2 ^ 52)) 3 = Inr ()"
    by (simp add: validate_grid_params_def pf_ge_def)
  have v2: "validate_grid_params (Fin 1) PInf 2 = Inr ()"
    by (simp add: validate_grid_params_def pf_ge_def)
  have f1: "feed (stub_client 0 (BinanceAPIException 400 ''rejected'')) (cstate fresh_world)
      (map (grid_request ''BTCUSDT'' (Fin 1)) [Fin 1, Fin 1, Fin (1 + 1 / 2 ^ 52)]) =
    map Inr [stub_response 0, stub_response 1, stub_response 2]"
    by (simp add: stub_client_def fresh_world_def eval_nat_numeral)
  have f2: "feed (stub_client 0 (BinanceAPIException 400 ''rejected'')) (cstate fresh_world)
      (map (grid_request ''BTCUSDT'' (Fin 1)) [NaN, PInf]) =
    map Inr [stub_response 0, stub_response 1]"
    by (simp add: stub_client_def fresh_world_def eval_nat_numeral)
  have e: "effects fresh_world = []"
    by (simp add: fresh_world_def)
  have p: "validate_price ''1'' = Inr (Fin 1)" "validate_price ''inf'' = Inr PInf"
    by (simp_all add: validate_price_def py_float_examples)
  from grid_success_run(2) [OF v1 levels_above_one f1] grid_success_run(2) [OF v2 levels_to_infinity f2]
    v1 v2 e p
  show ?thesis
    by simp
qed


end
